theory Spec2Isabelle
  imports Complex_Main "HOL-Library.Char_ord" "HOL-Library.List_Lexorder"
begin

section \<open>Binance kline collector: data model\<close>

text \<open>
  The program (\<^verbatim>\<open>scripts/binance_data_collector(2).py\<close>) downloads monthly kline
  archives, extracts one CSV file from each into a scratch directory, and merges the
  files into one table. The table cells, the files and the network are modelled
  explicitly; the libraries the program calls (pandas, requests, zipfile, datetime) are
  modelled by what the called operation does to these values.
\<close>

subsection \<open>Cells and rows\<close>

text \<open>
  A cell as \<^verbatim>\<open>pd.read_csv\<close> delivers it: a number (an int or a float; the model keeps
  the exact value as a rational), the missing value NaN, or a Python \<^verbatim>\<open>str\<close>.
\<close>

datatype cell = Num rat | NaN | Str string

text \<open>
  One row of a frame read with \<^verbatim>\<open>names=columns, header=None\<close> (lines 148-152, 157):
  exactly the twelve named columns. The type of the \<^verbatim>\<open>open_time\<close> column is a
  parameter: it holds raw cells when read, and numbers once line 174 has coerced it
  (\<open>None\<close> is NaN there).
\<close>

record 't kline =
  open_time :: 't
  open_p :: cell
  high :: cell
  low :: cell
  close_p :: cell
  volume :: cell
  close_time :: cell
  quote_volume :: cell
  trades :: cell
  taker_buy_base :: cell
  taker_buy_quote :: cell
  ignore :: cell

definition columns :: "string list" where
  "columns = [''open_time'', ''open'', ''high'', ''low'', ''close'', ''volume'',
     ''close_time'', ''quote_volume'', ''trades'', ''taker_buy_base'',
     ''taker_buy_quote'', ''ignore'']"

text \<open>A cell of the merged frame: a raw cell, a cell of the coerced numeric column, or
  a timestamp of the derived \<^verbatim>\<open>datetime\<close> column (the instant, in milliseconds since
  the epoch, UTC; \<open>NaT\<close> for a missing one).\<close>

datatype fcell = Raw cell | Number "rat option" | Timestamp rat | NaT

type_synonym frow = "(string \<times> fcell) list"

record dataframe =
  df_columns :: "string list"
  df_rows :: "frow list"

text \<open>\<^verbatim>\<open>df[c]\<close>, the cells of one column, row by row (\<open>None\<close> where a row has no such
  label).\<close>

definition column :: "dataframe \<Rightarrow> string \<Rightarrow> fcell option list" where
  "column df c = map (\<lambda>row. map_of row c) (df_rows df)"

subsection \<open>Files, scratch directories and the trace of effects\<close>

text \<open>What \<^verbatim>\<open>pd.read_csv\<close> makes of a file's bytes: it raises, or it returns a frame.\<close>

datatype csv_content = Unparseable | Table "cell kline list"

datatype event = Get string | Sleep nat

text \<open>
  The part of the machine the program touches: directories by name, each a map from file
  name to content (\<open>None\<close>: the directory does not exist); the CSV files written with
  \<^verbatim>\<open>to_csv\<close>; the archive requests made and pauses taken (in milliseconds), in order.
\<close>

record world =
  dirs :: "string \<rightharpoonup> (string \<rightharpoonup> csv_content)"
  outputs :: "string \<rightharpoonup> dataframe"
  trace :: "event list"

type_synonym path = "string \<times> string"

datatype error = FileNotFoundError | ParserError | ValueError

section \<open>The merge: \<^verbatim>\<open>merge_csv_files\<close>\<close>

text \<open>\<^verbatim>\<open>pd.read_csv(csv_file, names=columns, header=None)\<close> on a path of the machine.\<close>

definition read_csv :: "world \<Rightarrow> path \<Rightarrow> error + cell kline list" where
  "read_csv w p =
     (case dirs w (fst p) of
        None \<Rightarrow> Inl FileNotFoundError
      | Some files \<Rightarrow>
          (case files (snd p) of
             None \<Rightarrow> Inl FileNotFoundError
           | Some Unparseable \<Rightarrow> Inl ParserError
           | Some (Table rs) \<Rightarrow> Inr rs))"

text \<open>Lines 154-160: every file that reads is appended to \<^verbatim>\<open>dfs\<close>; one that raises
  is reported and skipped.\<close>

fun read_all :: "world \<Rightarrow> path list \<Rightarrow> cell kline list list" where
  "read_all w [] = []"
| "read_all w (csv_file # rest) =
     (case read_csv w csv_file of
        Inr df \<Rightarrow> df # read_all w rest
      | Inl e \<Rightarrow> read_all w rest)"

text \<open>
  Line 174, \<^verbatim>\<open>pd.to_numeric(..., errors='coerce')\<close>: a number stays, NaN stays, a
  string becomes the number pandas reads in it, or NaN. How pandas reads a string is not
  part of this program: \<open>str_to_num\<close> is a parameter of the model.
\<close>

definition to_numeric :: "(string \<Rightarrow> rat option) \<Rightarrow> cell \<Rightarrow> rat option" where
  "to_numeric str_to_num c =
     (case c of Num q \<Rightarrow> Some q | NaN \<Rightarrow> None | Str s \<Rightarrow> str_to_num s)"

definition coerce_open_time ::
  "(string \<Rightarrow> rat option) \<Rightarrow> cell kline \<Rightarrow> rat option kline" where
  "coerce_open_time str_to_num r =
     \<lparr>open_time = to_numeric str_to_num (open_time r), open_p = open_p r, high = high r,
      low = low r, close_p = close_p r, volume = volume r, close_time = close_time r,
      quote_volume = quote_volume r, trades = trades r,
      taker_buy_base = taker_buy_base r, taker_buy_quote = taker_buy_quote r,
      ignore = ignore r\<rparr>"

text \<open>Line 179.\<close>

definition min_timestamp :: int where
  "min_timestamp = 1230768000000"

text \<open>Python's \<^verbatim>\<open>int(x)\<close> on a float: truncation towards zero.\<close>

definition py_int :: "rat \<Rightarrow> int" where
  "py_int x = (if 0 \<le> x then \<lfloor>x\<rfloor> else \<lceil>x\<rceil>)"

text \<open>
  Line 180, \<^verbatim>\<open>int((datetime.now() + timedelta(days=365)).timestamp() * 1000)\<close>.
  The sum and \<^verbatim>\<open>.timestamp()\<close> are the datetime library's, on the naive local time of
  the machine: \<open>horizon_ts\<close> is the number of seconds since the epoch they yield for the
  wall-clock time 365 days after the moment of the call. It is an input of the model,
  which fixes neither a time zone nor a rule for daylight saving; a run in which the
  library raises instead (a clock within a year of the end of year 9999) has no such
  value. The program multiplies by 1000 and truncates.
\<close>

definition max_timestamp :: "rat \<Rightarrow> int" where
  "max_timestamp horizon_ts = py_int (horizon_ts * 1000)"

text \<open>Lines 183-187: the mask of one row. A comparison with NaN is false.\<close>

definition valid_mask :: "rat \<Rightarrow> rat option kline \<Rightarrow> bool" where
  "valid_mask horizon_ts r =
     (case open_time r of
        None \<Rightarrow> False
      | Some v \<Rightarrow> of_int min_timestamp \<le> v \<and> v \<le> of_int (max_timestamp horizon_ts))"

text \<open>
  Line 196, \<^verbatim>\<open>sort_values('open_time')\<close>: the rows with a number, ascending, then the
  rows with NaN. pandas sorts with numpy's \<^verbatim>\<open>argsort\<close>, whose default kind does not
  promise an order among equal keys; the model takes the outcome that keeps equal keys
  in their order (insertion sort, which numpy's quicksort is on short arrays).
\<close>

definition num_key :: "rat option kline \<Rightarrow> rat" where
  "num_key r = (case open_time r of Some v \<Rightarrow> v | None \<Rightarrow> 0)"

definition sort_values :: "rat option kline list \<Rightarrow> rat option kline list" where
  "sort_values rs =
     sort_key num_key (filter (\<lambda>r. open_time r \<noteq> None) rs)
       @ filter (\<lambda>r. open_time r = None) rs"

text \<open>Line 200, \<^verbatim>\<open>drop_duplicates(subset='open_time', keep='first')\<close>: a row stays
  unless an earlier row has its \<^verbatim>\<open>open_time\<close>.\<close>

fun drop_dups_from :: "rat option list \<Rightarrow> rat option kline list \<Rightarrow> rat option kline list" where
  "drop_dups_from seen [] = []"
| "drop_dups_from seen (r # rs) =
     (if open_time r \<in> set seen then drop_dups_from seen rs
      else r # drop_dups_from (open_time r # seen) rs)"

definition drop_duplicates :: "rat option kline list \<Rightarrow> rat option kline list" where
  "drop_duplicates rs = drop_dups_from [] rs"

text \<open>Line 206, \<^verbatim>\<open>pd.to_datetime(..., unit='ms', utc=True)\<close>, on one value.\<close>

definition to_datetime :: "rat option \<Rightarrow> fcell" where
  "to_datetime v = (case v of Some ms \<Rightarrow> Timestamp ms | None \<Rightarrow> NaT)"

text \<open>The cells of a row by label, in the order of the frame's columns after line 206:
  the twelve columns, then the new \<^verbatim>\<open>datetime\<close>.\<close>

definition with_datetime :: "rat option kline \<Rightarrow> frow" where
  "with_datetime r =
     [(''open_time'', Number (open_time r)), (''open'', Raw (open_p r)),
      (''high'', Raw (high r)), (''low'', Raw (low r)), (''close'', Raw (close_p r)),
      (''volume'', Raw (volume r)), (''close_time'', Raw (close_time r)),
      (''quote_volume'', Raw (quote_volume r)), (''trades'', Raw (trades r)),
      (''taker_buy_base'', Raw (taker_buy_base r)),
      (''taker_buy_quote'', Raw (taker_buy_quote r)), (''ignore'', Raw (ignore r)),
      (''datetime'', to_datetime (open_time r))]"

text \<open>Line 209.\<close>

definition cols :: "string list" where
  "cols = [''datetime'', ''open_time'']
     @ filter (\<lambda>col. col \<notin> set [''datetime'', ''open_time'']) (columns @ [''datetime''])"

text \<open>Line 210, \<^verbatim>\<open>merged_df[cols]\<close>, on one row. A label the frame does not have would
  raise KeyError; every label of \<open>cols\<close> is one of the frame's.\<close>

definition select_cols :: "string list \<Rightarrow> frow \<Rightarrow> frow" where
  "select_cols cs row =
     concat (map (\<lambda>c. case map_of row c of Some v \<Rightarrow> [(c, v)] | None \<Rightarrow> []) cs)"

text \<open>Line 213, \<^verbatim>\<open>to_csv(output_filename, index=False)\<close>: the header row and the rows.\<close>

definition to_csv :: "dataframe \<Rightarrow> string \<Rightarrow> world \<Rightarrow> world" where
  "to_csv df output_filename w = w\<lparr>outputs := (outputs w)(output_filename \<mapsto> df)\<rparr>"

text \<open>Lines 167-200: concatenation, coercion, the validity filter, the sort and the
  removal of duplicates.\<close>

definition clean_rows ::
  "(string \<Rightarrow> rat option) \<Rightarrow> rat \<Rightarrow> cell kline list list \<Rightarrow> rat option kline list" where
  "clean_rows str_to_num horizon_ts dfs =
     (let merged_df = concat dfs;
          merged_df = map (coerce_open_time str_to_num) merged_df;
          merged_df = filter (valid_mask horizon_ts) merged_df;
          merged_df = sort_values merged_df
      in drop_duplicates merged_df)"

text \<open>Lines 167-210, from the frames read to the merged one.\<close>

definition merge_frames ::
  "(string \<Rightarrow> rat option) \<Rightarrow> rat \<Rightarrow> cell kline list list \<Rightarrow> dataframe" where
  "merge_frames str_to_num horizon_ts dfs =
     \<lparr>df_columns = cols,
      df_rows = map (\<lambda>r. select_cols cols (with_datetime r))
                  (clean_rows str_to_num horizon_ts dfs)\<rparr>"

text \<open>The whole operation: the frame returned (\<open>None\<close> for Python's \<^verbatim>\<open>None\<close>) and the
  machine afterwards.\<close>

definition merge_csv_files ::
  "(string \<Rightarrow> rat option) \<Rightarrow> rat \<Rightarrow> path list \<Rightarrow> string \<Rightarrow> world
     \<Rightarrow> dataframe option \<times> world" where
  "merge_csv_files str_to_num horizon_ts csv_files output_filename w =
     (let dfs = read_all w csv_files
      in if dfs = [] then (None, w)
         else (let merged_df = merge_frames str_to_num horizon_ts dfs
               in (Some merged_df, to_csv merged_df output_filename w)))"

section \<open>The collector object\<close>

record collector =
  symbol :: string
  interval :: string
  temp_dir :: string
  s3_base :: string

text \<open>\<^verbatim>\<open>Path.mkdir(exist_ok=True)\<close>: an existing directory is left as it is.\<close>

definition mkdir_exist_ok :: "string \<Rightarrow> world \<Rightarrow> world" where
  "mkdir_exist_ok d w =
     (case dirs w d of
        Some files \<Rightarrow> w
      | None \<Rightarrow> w\<lparr>dirs := (dirs w)(d \<mapsto> Map.empty)\<rparr>)"

text \<open>Lines 16-23, \<^verbatim>\<open>__init__\<close>.\<close>

definition init :: "string \<Rightarrow> string \<Rightarrow> world \<Rightarrow> collector \<times> world" where
  "init symb intv w =
     (let self = \<lparr>symbol = symb, interval = intv, temp_dir = ''temp_'' @ symb,
                   s3_base = ''https://s3-ap-northeast-1.amazonaws.com/data.binance.vision''\<rparr>
      in (self, mkdir_exist_ok (temp_dir self) w))"

text \<open>Lines 221-226, \<^verbatim>\<open>cleanup\<close>: \<^verbatim>\<open>shutil.rmtree\<close> removes the directory and all it
  holds.\<close>

definition cleanup :: "collector \<Rightarrow> world \<Rightarrow> world" where
  "cleanup self w =
     (if dirs w (temp_dir self) \<noteq> None
      then w\<lparr>dirs := (dirs w)(temp_dir self := None)\<rparr>
      else w)"

section \<open>The locator: \<^verbatim>\<open>get_zip_links\<close> and \<^verbatim>\<open>generate_urls_by_pattern\<close>\<close>

subsection \<open>Dates and strings\<close>

text \<open>A naive \<^verbatim>\<open>datetime\<close> value.\<close>

record datetime =
  year :: nat
  month :: nat
  day :: nat
  hour :: nat
  minute :: nat
  second :: nat
  microsecond :: nat

text \<open>\<^verbatim>\<open>datetime(y, m, 1)\<close>: ValueError unless the year is in 1..9999 (MINYEAR, MAXYEAR)
  and the month in 1..12.\<close>

definition first_of_month :: "nat \<Rightarrow> nat \<Rightarrow> error + datetime" where
  "first_of_month y m =
     (if 1 \<le> y \<and> y \<le> 9999 \<and> 1 \<le> m \<and> m \<le> 12
      then Inr \<lparr>year = y, month = m, day = 1, hour = 0, minute = 0, second = 0,
                microsecond = 0\<rparr>
      else Inl ValueError)"

text \<open>\<^verbatim>\<open>a <= b\<close> on naive datetimes: the fields compared in order.\<close>

fun lex_le :: "nat list \<Rightarrow> nat list \<Rightarrow> bool" where
  "lex_le [] bs = True"
| "lex_le (a # as) [] = False"
| "lex_le (a # as) (b # bs) = (a < b \<or> (a = b \<and> lex_le as bs))"

definition dt_fields :: "datetime \<Rightarrow> nat list" where
  "dt_fields d = [year d, month d, day d, hour d, minute d, second d, microsecond d]"

definition dt_le :: "datetime \<Rightarrow> datetime \<Rightarrow> bool" where
  "dt_le a b = lex_le (dt_fields a) (dt_fields b)"

text \<open>\<^verbatim>\<open>str(n)\<close> for a non-negative integer, and \<^verbatim>\<open>s.zfill(2)\<close> on its digits.\<close>

definition digit_char :: "nat \<Rightarrow> char" where
  "digit_char d = char_of (48 + d)"

fun str_nat :: "nat \<Rightarrow> string" where
  "str_nat n = (if n < 10 then [digit_char n] else str_nat (n div 10) @ [digit_char (n mod 10)])"

definition zfill2 :: "string \<Rightarrow> string" where
  "zfill2 s = replicate (2 - length s) (CHR ''0'') @ s"

definition endswith :: "string \<Rightarrow> string \<Rightarrow> bool" where
  "endswith s suf = (length suf \<le> length s \<and> drop (length s - length suf) s = suf)"

subsection \<open>The fallback generator\<close>

text \<open>Lines 89-90: the URL of one month.\<close>

definition month_url :: "collector \<Rightarrow> nat \<Rightarrow> nat \<Rightarrow> string" where
  "month_url self y m =
     (let filename = symbol self @ ''-'' @ interval self @ ''-'' @ str_nat y @ ''-''
                       @ zfill2 (str_nat m) @ ''.zip''
      in s3_base self @ ''/data/spot/monthly/klines/'' @ symbol self @ ''/''
           @ interval self @ ''/'' @ filename)"

text \<open>
  Lines 83-98, the loop. \<open>y\<close> and \<open>m\<close> are the arguments of the \<^verbatim>\<open>datetime(...)\<close> call
  that yields \<^verbatim>\<open>current\<close> (line 83 before the loop, lines 96 and 98 in it); the call
  may raise, and the test of line 85 follows it.
\<close>

function months_loop ::
  "collector \<Rightarrow> datetime \<Rightarrow> nat \<Rightarrow> nat \<Rightarrow> string list \<Rightarrow> error + string list" where
  "months_loop self end_date y m zip_links =
     (case first_of_month y m of
        Inl e \<Rightarrow> Inl e
      | Inr current \<Rightarrow>
          if dt_le current end_date
          then (if month current = 12
                then months_loop self end_date (year current + 1) 1
                       (zip_links @ [month_url self (year current) (month current)])
                else months_loop self end_date (year current) (month current + 1)
                       (zip_links @ [month_url self (year current) (month current)]))
          else Inr zip_links)"
  by pat_completeness auto
termination
  by (relation "measure (\<lambda>(self, end_date, y, m, zip_links). 200000 - (12 * y + m))")
     (auto simp: first_of_month_def split: if_splits)

declare months_loop.simps [simp del]

text \<open>Lines 71-101; \<open>now\<close> is the value of \<^verbatim>\<open>datetime.now()\<close>.\<close>

definition generate_urls_by_pattern :: "collector \<Rightarrow> datetime \<Rightarrow> error + string list" where
  "generate_urls_by_pattern self now =
     (let start_year = (if symbol self = ''BTCUSDT'' then 2017 else 2018);
          end_date = now
      in months_loop self end_date start_year 1 [])"

subsection \<open>The listing query\<close>

text \<open>
  What \<^verbatim>\<open>content.find('s3:Key', ns)\<close> gives for one \<^verbatim>\<open>Contents\<close> element: no element,
  or an element with its text (\<open>None\<close> for an element without text).
\<close>

datatype key_elem = NoKey | Key "string option"

text \<open>
  The answer to the listing request: the request, the status check or the XML parser
  raised; or a document, given by its \<^verbatim>\<open>Contents\<close> elements in the S3 namespace and
  those without namespace.
\<close>

datatype listing = ListingFailed | Listing "key_elem list" "key_elem list"

text \<open>Lines 46-50 (and 54-58): \<open>None\<close> when \<^verbatim>\<open>key.text.endswith\<close> raises on a missing
  text.\<close>

fun zip_keys :: "collector \<Rightarrow> key_elem list \<Rightarrow> string list option" where
  "zip_keys self [] = Some []"
| "zip_keys self (NoKey # rest) = zip_keys self rest"
| "zip_keys self (Key None # rest) = None"
| "zip_keys self (Key (Some t) # rest) =
     (case zip_keys self rest of
        None \<Rightarrow> None
      | Some links \<Rightarrow>
          Some (if endswith t ''.zip'' then (s3_base self @ ''/'' @ t) # links else links))"

text \<open>Lines 25-69.\<close>

definition get_zip_links :: "listing \<Rightarrow> datetime \<Rightarrow> collector \<Rightarrow> error + string list" where
  "get_zip_links resp now self =
     (case resp of
        ListingFailed \<Rightarrow> generate_urls_by_pattern self now
      | Listing with_ns without_ns \<Rightarrow>
          (case zip_keys self with_ns of
             None \<Rightarrow> generate_urls_by_pattern self now
           | Some zip_links \<Rightarrow>
               if zip_links = []
               then (case zip_keys self without_ns of
                       None \<Rightarrow> generate_urls_by_pattern self now
                     | Some zip_links \<Rightarrow> Inr (sort zip_links))
               else Inr (sort zip_links)))"

section \<open>The fetcher: \<^verbatim>\<open>download_and_extract\<close>\<close>

text \<open>
  What \<^verbatim>\<open>zipfile.ZipFile\<close> makes of a response body: it raises, or it lists members,
  each a name with the file it holds.
\<close>

datatype archive = BadZipFile | Zip "(string \<times> csv_content) list"

text \<open>One \<^verbatim>\<open>requests.get(url, timeout=60)\<close>: it raises (timeout, connection error), or
  it returns a response with a status code and a body.\<close>

datatype http = RequestFailed | Response nat archive

definition log_event :: "event \<Rightarrow> world \<Rightarrow> world" where
  "log_event e w = w\<lparr>trace := trace w @ [e]\<rparr>"

text \<open>\<^verbatim>\<open>z.extract(filename, self.temp_dir)\<close>: the member is written under the directory,
  which is created if it is missing.\<close>

definition zip_extract :: "string \<Rightarrow> string \<Rightarrow> csv_content \<Rightarrow> world \<Rightarrow> world" where
  "zip_extract d filename content w =
     (let files = (case dirs w d of None \<Rightarrow> Map.empty | Some files \<Rightarrow> files)
      in w\<lparr>dirs := (dirs w)(d \<mapsto> files(filename \<mapsto> content))\<rparr>)"

text \<open>
  Lines 105-141, the loop over \<^verbatim>\<open>range(retries)\<close>. \<open>fetch url attempt\<close> is what the
  network answers to the request of that attempt. Line 129's \<^verbatim>\<open>attempt < retries - 1\<close> is
  written \<open>attempt + 1 < retries\<close> (natural numbers). \<^verbatim>\<open>raise_for_status\<close> raises HTTPError
  for a status in 400..599. Every exception is caught (lines 127, 134).
\<close>

fun attempts ::
  "(string \<Rightarrow> nat \<Rightarrow> http) \<Rightarrow> collector \<Rightarrow> string \<Rightarrow> nat \<Rightarrow> nat list \<Rightarrow> world
     \<Rightarrow> path option \<times> world" where
  "attempts fetch self url retries [] w = (None, w)"
| "attempts fetch self url retries (attempt # rest) w =
     (let w = log_event (Get url) w
      in case fetch url attempt of
           RequestFailed \<Rightarrow>
             if attempt + 1 < retries
             then attempts fetch self url retries rest (log_event (Sleep 2000) w)
             else (None, w)
         | Response status_code content \<Rightarrow>
             if status_code = 404 then (None, w)
             else if 400 \<le> status_code \<and> status_code < 600
             then (if status_code \<noteq> 404
                   then (if attempt + 1 < retries
                         then attempts fetch self url retries rest (log_event (Sleep 2000) w)
                         else (None, w))
                   else (None, w))
             else (case content of
                     BadZipFile \<Rightarrow>
                       if attempt + 1 < retries
                       then attempts fetch self url retries rest (log_event (Sleep 2000) w)
                       else (None, w)
                   | Zip members \<Rightarrow>
                       (case find (\<lambda>member. endswith (fst member) ''.csv'') members of
                          Some member \<Rightarrow>
                            (Some (temp_dir self, fst member),
                             zip_extract (temp_dir self) (fst member) (snd member) w)
                        | None \<Rightarrow> (None, w))))"

definition download_and_extract ::
  "(string \<Rightarrow> nat \<Rightarrow> http) \<Rightarrow> collector \<Rightarrow> string \<Rightarrow> nat \<Rightarrow> world
     \<Rightarrow> path option \<times> world" where
  "download_and_extract fetch self url retries w =
     attempts fetch self url retries [0..<retries] w"

section \<open>The orchestrator: \<^verbatim>\<open>collect\<close>\<close>

text \<open>What the program reads from outside during a run: the answer to the listing
  request, the answers to the archive requests, the clock (\<^verbatim>\<open>datetime.now()\<close> for the
  locator, and for the merge the timestamp of the moment 365 days later, see
  \<open>max_timestamp\<close>), and pandas' reading of strings as numbers.\<close>

record env =
  env_listing :: listing
  env_fetch :: "string \<Rightarrow> nat \<Rightarrow> http"
  env_now :: datetime
  env_horizon_ts :: rat
  env_str_to_num :: "string \<Rightarrow> rat option"

text \<open>Lines 249-257. The counters \<^verbatim>\<open>successful\<close> and \<^verbatim>\<open>failed\<close> are the lengths of the
  two lists.\<close>

fun download_all ::
  "env \<Rightarrow> collector \<Rightarrow> string list \<Rightarrow> path list \<Rightarrow> string list \<Rightarrow> world
     \<Rightarrow> path list \<times> string list \<times> world" where
  "download_all E self [] csv_files failed_urls w = (csv_files, failed_urls, w)"
| "download_all E self (url # rest) csv_files failed_urls w =
     (case download_and_extract (env_fetch E) self url 3 w of
        (Some csv_file, w') \<Rightarrow>
          download_all E self rest (csv_files @ [csv_file]) failed_urls
            (log_event (Sleep 100) w')
      | (None, w') \<Rightarrow>
          download_all E self rest csv_files (failed_urls @ [url])
            (log_event (Sleep 100) w'))"

text \<open>Lines 228-276. The result is what \<^verbatim>\<open>collect\<close> returns, or the exception that
  leaves it, with the machine at that moment.\<close>

definition collect ::
  "env \<Rightarrow> collector \<Rightarrow> string \<Rightarrow> world \<Rightarrow> (error + dataframe option) \<times> world" where
  "collect E self output_filename w =
     (case get_zip_links (env_listing E) (env_now E) self of
        Inl e \<Rightarrow> (Inl e, w)
      | Inr zip_links \<Rightarrow>
          if zip_links = [] then (Inr None, w)
          else (case download_all E self zip_links [] [] w of
                  (csv_files, failed_urls, w1) \<Rightarrow>
                    if csv_files = [] then (Inr None, w1)
                    else (case merge_csv_files (env_str_to_num E) (env_horizon_ts E)
                                 csv_files output_filename w1 of
                            (df, w2) \<Rightarrow> (Inr df, cleanup self w2))))"

section \<open>Sample inputs\<close>

text \<open>A row with the given \<^verbatim>\<open>open_time\<close> and one value in every other column.\<close>

definition mk_row :: "'t \<Rightarrow> cell \<Rightarrow> 't kline" where
  "mk_row t x =
     \<lparr>open_time = t, open_p = x, high = x, low = x, close_p = x, volume = x,
      close_time = x, quote_volume = x, trades = x, taker_buy_base = x,
      taker_buy_quote = x, ignore = x\<rparr>"

text \<open>A reading of strings that finds a number in none.\<close>

definition no_str :: "string \<Rightarrow> rat option" where
  "no_str s = None"

text \<open>A machine with one directory holding the given files, nothing written and
  nothing requested yet.\<close>

definition scratch_world :: "string \<Rightarrow> (string \<times> csv_content) list \<Rightarrow> world" where
  "scratch_world d files = \<lparr>dirs = [d \<mapsto> map_of files], outputs = Map.empty, trace = []\<rparr>"

text \<open>Two files of one scratch directory, and the machine that holds them.\<close>

definition sample_files :: "path list" where
  "sample_files = [(''temp_BTCUSDT'', ''a.csv''), (''temp_BTCUSDT'', ''b.csv'')]"

definition sample_world :: "cell kline list \<Rightarrow> cell kline list \<Rightarrow> world" where
  "sample_world a b =
     scratch_world ''temp_BTCUSDT'' [(''a.csv'', Table a), (''b.csv'', Table b)]"

text \<open>Batches with timestamps inside the accepted range: a duplicate across the two
  batches, a row below the range and a row whose \<^verbatim>\<open>open_time\<close> is no number.\<close>

definition sample_a :: "cell kline list" where
  "sample_a = [mk_row (Num 1230768000200) (Str ''A2''), mk_row (Num 1230768000100) (Str ''A1'')]"

definition sample_b :: "cell kline list" where
  "sample_b = [mk_row (Num 1230768000200) (Str ''B2''), mk_row (Num 5) (Str ''B0''),
               mk_row (Str ''x'') NaN]"

text \<open>A batch with a row one millisecond below the minimum, a row at the minimum and a
  row whose \<^verbatim>\<open>open_time\<close> is no number.\<close>

definition sample_edge :: "cell kline list" where
  "sample_edge = [mk_row (Num 1230767999999) (Str ''below''),
                  mk_row (Num 1230768000000) (Str ''at''), mk_row (Str ''x'') NaN]"

text \<open>A batch whose timestamp is a number but no integer.\<close>

definition sample_half :: "cell kline list" where
  "sample_half = [mk_row (Num (3000000000001 / 2)) (Num 1)]"

text \<open>The two batches of the specification's example, with the timestamps 100, 200 and
  300 as written there, and with the same offsets from 1230768000000.\<close>

definition spec_a :: "cell kline list" where
  "spec_a = [mk_row (Num 100) (Str ''A1''), mk_row (Num 200) (Str ''A2'')]"

definition spec_b :: "cell kline list" where
  "spec_b = [mk_row (Num 200) (Str ''B2''), mk_row (Num 300) (Str ''B3'')]"

definition shifted_a :: "cell kline list" where
  "shifted_a = [mk_row (Num 1230768000100) (Str ''A1''), mk_row (Num 1230768000200) (Str ''A2'')]"

definition shifted_b :: "cell kline list" where
  "shifted_b = [mk_row (Num 1230768000200) (Str ''B2''), mk_row (Num 1230768000300) (Str ''B3'')]"

text \<open>The machine before anything has run, and the two collectors of \<^verbatim>\<open>main\<close>
  (lines 289-306) with the machine after the second one's \<^verbatim>\<open>__init__\<close>.\<close>

definition empty_world :: world where
  "empty_world = \<lparr>dirs = Map.empty, outputs = Map.empty, trace = []\<rparr>"

definition btc :: collector where
  "btc = fst (init ''BTCUSDT'' ''4h'' empty_world)"

definition eth :: collector where
  "eth = fst (init ''ETHUSDT'' ''4h'' empty_world)"

definition eth_world :: world where
  "eth_world = snd (init ''ETHUSDT'' ''4h'' \<lparr>dirs = Map.empty, outputs = Map.empty, trace = []\<rparr>)"

text \<open>A clock reading on the given day.\<close>

definition date :: "nat \<Rightarrow> nat \<Rightarrow> nat \<Rightarrow> datetime" where
  "date y m d = \<lparr>year = y, month = m, day = d, hour = 12, minute = 30, second = 0,
                 microsecond = 0\<rparr>"

text \<open>Network answers: every request not found; the first request raising and the later
  ones answered with status 503.\<close>

definition answer_404 :: "string \<Rightarrow> nat \<Rightarrow> http" where
  "answer_404 url attempt = Response 404 BadZipFile"

definition answer_flaky :: "string \<Rightarrow> nat \<Rightarrow> http" where
  "answer_flaky url attempt = (if attempt = 0 then RequestFailed else Response 503 BadZipFile)"

text \<open>Two runs in January 2018: the listing answers with no entry at all; the listing
  fails and so does every archive request.\<close>

definition env_no_archives :: env where
  "env_no_archives =
     \<lparr>env_listing = Listing [] [], env_fetch = (\<lambda>url attempt. RequestFailed),
      env_now = \<lparr>year = 2018, month = 1, day = 15, hour = 12, minute = 30, second = 0,
                   microsecond = 0\<rparr>,
      env_horizon_ts = 1547555400, env_str_to_num = no_str\<rparr>"

definition env_offline :: env where
  "env_offline = env_no_archives\<lparr>env_listing := ListingFailed\<rparr>"

section \<open>The specification's words\<close>

text \<open>The failures the specification's retry rule names: a timeout or connection error
  (the request raises), or an HTTP error status other than not-found.\<close>

definition transient :: "http \<Rightarrow> bool" where
  "transient r =
     (case r of
        RequestFailed \<Rightarrow> True
      | Response status_code content \<Rightarrow>
          status_code \<noteq> 404 \<and> 400 \<le> status_code \<and> status_code < 600)"

text \<open>The default start year of a symbol: 2017 for BTCUSDT, 2018 otherwise.\<close>

definition default_start_year :: "collector \<Rightarrow> nat" where
  "default_start_year self = (if symbol self = ''BTCUSDT'' then 2017 else 2018)"

text \<open>
  One identifier for every (year, month) pair from January of the start year through the
  month of the current date, in chronological order. Month number \<open>k\<close> counts the months
  from January of year 0: it is month \<open>k mod 12 + 1\<close> of year \<open>k div 12\<close>.
\<close>

definition all_months :: "collector \<Rightarrow> nat \<Rightarrow> datetime \<Rightarrow> string list" where
  "all_months self start_year now =
     map (\<lambda>k. month_url self (k div 12) (k mod 12 + 1))
       [12 * start_year ..< 12 * year now + month now]"

section \<open>Properties of the merge\<close>

subsection \<open>Auxiliary facts\<close>

lemma cols_eq: "cols = ''datetime'' # columns"
  by (simp add: cols_def columns_def)

lemma select_with_datetime:
  "select_cols cols (with_datetime r) =
     [(''datetime'', to_datetime (open_time r)), (''open_time'', Number (open_time r)),
      (''open'', Raw (open_p r)), (''high'', Raw (high r)), (''low'', Raw (low r)),
      (''close'', Raw (close_p r)), (''volume'', Raw (volume r)),
      (''close_time'', Raw (close_time r)), (''quote_volume'', Raw (quote_volume r)),
      (''trades'', Raw (trades r)), (''taker_buy_base'', Raw (taker_buy_base r)),
      (''taker_buy_quote'', Raw (taker_buy_quote r)), (''ignore'', Raw (ignore r))]"
  by (simp add: cols_def columns_def select_cols_def with_datetime_def)

lemma drop_dups_from_subset: "set (drop_dups_from seen rs) \<subseteq> set rs"
  by (induction rs arbitrary: seen) auto

lemma drop_dups_from_keys:
  "open_time ` set (drop_dups_from seen rs) = open_time ` set rs - set seen"
  by (induction rs arbitrary: seen) auto

lemma drop_dups_from_distinct: "distinct (map open_time (drop_dups_from seen rs))"
proof (induction rs arbitrary: seen)
  case Nil
  then show ?case by simp
next
  case (Cons r rs)
  have "open_time r \<notin> open_time ` set (drop_dups_from (open_time r # seen) rs)"
    by (simp add: drop_dups_from_keys)
  with Cons show ?case by simp
qed

lemma drop_dups_from_sorted:
  "sorted (map num_key rs) \<Longrightarrow> sorted (map num_key (drop_dups_from seen rs))"
proof (induction rs arbitrary: seen)
  case Nil
  then show ?case by simp
next
  case (Cons r rs)
  have sub: "set (drop_dups_from s rs) \<subseteq> set rs" for s
    by (rule drop_dups_from_subset)
  from Cons show ?case using sub by (auto simp: subset_iff)
qed

lemma sort_values_no_nan:
  "\<forall>r\<in>set rs. open_time r \<noteq> None \<Longrightarrow> sort_values rs = sort_key num_key rs"
proof -
  assume a: "\<forall>r\<in>set rs. open_time r \<noteq> None"
  then have "filter (\<lambda>r. open_time r \<noteq> None) rs = rs"
    by (simp add: filter_id_conv)
  moreover from a have "filter (\<lambda>r. open_time r = None) rs = []"
    by (simp add: filter_empty_conv)
  ultimately show ?thesis by (simp add: sort_values_def)
qed


lemma valid_mask_coerce:
  "valid_mask horizon_ts (coerce_open_time s2n r) \<longleftrightarrow>
     (\<exists>v. to_numeric s2n (open_time r) = Some v \<and> of_int min_timestamp \<le> v
          \<and> v \<le> of_int (max_timestamp horizon_ts))"
  by (simp add: valid_mask_def coerce_open_time_def split: option.splits)

lemma open_time_coerce [simp]:
  "open_time (coerce_open_time s2n r) = to_numeric s2n (open_time r)"
  by (simp add: coerce_open_time_def)

lemma valid_mask_Some:
  "valid_mask horizon_ts r \<Longrightarrow> open_time r = Some (num_key r)"
  by (simp add: valid_mask_def num_key_def split: option.splits)

lemma valid_mask_range:
  "valid_mask horizon_ts r \<Longrightarrow>
     of_int min_timestamp \<le> num_key r \<and> num_key r \<le> of_int (max_timestamp horizon_ts)"
  by (simp add: valid_mask_def num_key_def split: option.splits)

lemma clean_rows_subset:
  "set (clean_rows s2n horizon_ts dfs)
     \<subseteq> set (filter (valid_mask horizon_ts) (map (coerce_open_time s2n) (concat dfs)))"
proof -
  let ?rows = "filter (valid_mask horizon_ts) (map (coerce_open_time s2n) (concat dfs))"
  have "\<forall>r\<in>set ?rows. open_time r \<noteq> None"
    by (auto dest: valid_mask_Some)
  then have "sort_values ?rows = sort_key num_key ?rows"
    by (rule sort_values_no_nan)
  then have "clean_rows s2n horizon_ts dfs = drop_dups_from [] (sort_key num_key ?rows)"
    by (simp add: clean_rows_def drop_duplicates_def)
  moreover have "set (drop_dups_from [] (sort_key num_key ?rows)) \<subseteq> set (sort_key num_key ?rows)"
    by (rule drop_dups_from_subset)
  ultimately show ?thesis by simp
qed

lemma clean_rows_keys:
  "map open_time (clean_rows s2n horizon_ts dfs) = map Some (map num_key (clean_rows s2n horizon_ts dfs))
   \<and> sorted_wrt (<) (map num_key (clean_rows s2n horizon_ts dfs))
   \<and> set (map num_key (clean_rows s2n horizon_ts dfs)) =
       {v. \<exists>r\<in>set (concat dfs). to_numeric s2n (open_time r) = Some v
             \<and> of_int min_timestamp \<le> v \<and> v \<le> of_int (max_timestamp horizon_ts)}"
proof -
  let ?rows = "filter (valid_mask horizon_ts) (map (coerce_open_time s2n) (concat dfs))"
  let ?out = "clean_rows s2n horizon_ts dfs"
  have nn: "\<forall>r\<in>set ?rows. open_time r \<noteq> None"
    by (auto dest: valid_mask_Some)
  have out: "?out = drop_dups_from [] (sort_key num_key ?rows)"
    using sort_values_no_nan [OF nn] by (simp add: clean_rows_def drop_duplicates_def)
  have some: "open_time r = Some (num_key r)" if "r \<in> set ?out" for r
    using that clean_rows_subset [of s2n horizon_ts dfs] by (auto dest: valid_mask_Some)
  then have m: "map open_time ?out = map Some (map num_key ?out)"
    by simp
  have "sorted (map num_key (sort_key num_key ?rows))"
    by (rule sorted_sort_key)
  then have s: "sorted (map num_key ?out)"
    unfolding out by (rule drop_dups_from_sorted)
  have "distinct (map open_time ?out)"
    unfolding out by (rule drop_dups_from_distinct)
  then have "distinct (map Some (map num_key ?out))"
    by (simp only: m)
  then have d: "distinct (map num_key ?out)"
    by (simp only: distinct_map)
  have "open_time ` set ?out = open_time ` set ?rows"
    unfolding out by (simp add: drop_dups_from_keys)
  then have "Some ` set (map num_key ?out) = open_time ` set ?rows"
    using m by (metis image_set list.set_map)
  also have "\<dots> = Some ` {v. \<exists>r\<in>set (concat dfs). to_numeric s2n (open_time r) = Some v
             \<and> of_int min_timestamp \<le> v \<and> v \<le> of_int (max_timestamp horizon_ts)}"
    (is "_ = Some ` ?V")
  proof (rule set_eqI)
    fix x
    show "x \<in> open_time ` set ?rows \<longleftrightarrow> x \<in> Some ` ?V"
    proof
      assume "x \<in> open_time ` set ?rows"
      then obtain r where r: "r \<in> set (concat dfs)"
          "valid_mask horizon_ts (coerce_open_time s2n r)"
          "x = to_numeric s2n (open_time r)"
        by (auto simp del: set_concat)
      from r(2) obtain v where v: "to_numeric s2n (open_time r) = Some v"
          "of_int min_timestamp \<le> v" "v \<le> of_int (max_timestamp horizon_ts)"
        unfolding valid_mask_coerce by blast
      with r(1) have "v \<in> ?V" by blast
      with r(3) v(1) show "x \<in> Some ` ?V" by simp
    next
      assume "x \<in> Some ` ?V"
      then obtain v r where v: "x = Some v" "r \<in> set (concat dfs)"
          "to_numeric s2n (open_time r) = Some v"
          "of_int min_timestamp \<le> v" "v \<le> of_int (max_timestamp horizon_ts)"
        by blast
      then have "valid_mask horizon_ts (coerce_open_time s2n r)"
        unfolding valid_mask_coerce by blast
      with v(2) have "coerce_open_time s2n r \<in> set ?rows" by simp
      moreover have "open_time (coerce_open_time s2n r) = x"
        using v(1,3) by simp
      ultimately show "x \<in> open_time ` set ?rows" by (metis imageI)
    qed
  qed
  finally have k: "set (map num_key ?out) =
       {v. \<exists>r\<in>set (concat dfs). to_numeric s2n (open_time r) = Some v
             \<and> of_int min_timestamp \<le> v \<and> v \<le> of_int (max_timestamp horizon_ts)}"
    by (simp add: inj_image_eq_iff)
  from m s d k show ?thesis by (simp add: strict_sorted_iff)
qed


lemma merge_Some:
  "fst (merge_csv_files s2n horizon_ts csv_files out w) = Some df \<Longrightarrow>
     df = merge_frames s2n horizon_ts (read_all w csv_files) \<and> read_all w csv_files \<noteq> []"
  by (auto simp: merge_csv_files_def Let_def split: if_splits)

lemma num_key_coerce:
  "to_numeric s2n (open_time r) = Some t \<Longrightarrow> num_key (coerce_open_time s2n r) = t"
  by (simp add: num_key_def)

lemma first_seen_rows:
  assumes "to_numeric s2n (open_time a1) = Some t1"
    and "to_numeric s2n (open_time a2) = Some t2"
    and "to_numeric s2n (open_time b2) = Some t2"
    and "to_numeric s2n (open_time b3) = Some t3"
    and "t1 < t2" and "t2 < t3"
    and "of_int min_timestamp \<le> t1" and "t3 \<le> of_int (max_timestamp horizon_ts)"
  shows "clean_rows s2n horizon_ts [[a1, a2], [b2, b3]] =
           map (coerce_open_time s2n) [a1, a2, b3]"
proof -
  let ?c = "coerce_open_time s2n"
  have v: "valid_mask horizon_ts (?c a1)" "valid_mask horizon_ts (?c a2)"
      "valid_mask horizon_ts (?c b2)" "valid_mask horizon_ts (?c b3)"
    using assms by (auto simp: valid_mask_coerce)
  have k: "num_key (?c a1) = t1" "num_key (?c a2) = t2" "num_key (?c b2) = t2"
      "num_key (?c b3) = t3"
    using assms by (simp_all add: num_key_coerce)
  have f: "filter (valid_mask horizon_ts) (map ?c (concat [[a1, a2], [b2, b3]]))
             = [?c a1, ?c a2, ?c b2, ?c b3]"
    using v by simp
  have "sort_values [?c a1, ?c a2, ?c b2, ?c b3] = sort_key num_key [?c a1, ?c a2, ?c b2, ?c b3]"
    by (rule sort_values_no_nan) (use assms in simp)
  also have "\<dots> = [?c a1, ?c a2, ?c b2, ?c b3]"
    using assms(5,6) by (simp add: k)
  finally have s: "sort_values [?c a1, ?c a2, ?c b2, ?c b3] = [?c a1, ?c a2, ?c b2, ?c b3]" .
  have "drop_duplicates [?c a1, ?c a2, ?c b2, ?c b3] = [?c a1, ?c a2, ?c b3]"
    using assms by (simp add: drop_duplicates_def)
  with f s show ?thesis by (simp add: clean_rows_def)
qed


lemma merge_on_files:
  "read_all w csv_files = dfs \<Longrightarrow> dfs \<noteq> [] \<Longrightarrow>
     fst (merge_csv_files s2n horizon_ts csv_files out w) = Some (merge_frames s2n horizon_ts dfs)"
  by (simp add: merge_csv_files_def Let_def)

lemma read_all_empty:
  "read_all w ps = [] \<longleftrightarrow> (\<forall>p\<in>set ps. \<exists>e. read_csv w p = Inl e)"
  by (induction ps) (auto split: sum.splits)

lemma clean_rows_all_invalid:
  assumes "\<forall>r\<in>set (concat dfs). \<not> valid_mask horizon_ts (coerce_open_time s2n r)"
  shows "clean_rows s2n horizon_ts dfs = []"
proof -
  from assms have "filter (valid_mask horizon_ts) (map (coerce_open_time s2n) (concat dfs)) = []"
    by (simp add: filter_empty_conv del: set_concat)
  then have "sort_values (filter (valid_mask horizon_ts) (map (coerce_open_time s2n) (concat dfs))) = []"
    by (simp add: sort_values_def)
  then show ?thesis
    unfolding clean_rows_def Let_def by (simp add: drop_duplicates_def)
qed

lemma clean_rows_single:
  assumes "valid_mask horizon_ts (coerce_open_time s2n r)"
  shows "clean_rows s2n horizon_ts [[r], []] = [coerce_open_time s2n r]"
proof -
  let ?c = "coerce_open_time s2n r"
  have "sort_values [?c] = sort_key num_key [?c]"
    by (rule sort_values_no_nan) (use valid_mask_Some [OF assms] in simp)
  then have "sort_values [?c] = [?c]" by simp
  with assms show ?thesis
    by (simp add: clean_rows_def drop_duplicates_def)
qed

lemmas merge_eval =
  clean_rows_def Let_def sort_values_def drop_duplicates_def valid_mask_def coerce_open_time_def
  to_numeric_def num_key_def mk_row_def max_timestamp_def py_int_def min_timestamp_def
  no_str_def

lemma read_sample: "read_all (sample_world a b) sample_files = [a, b]"
  by (simp add: sample_world_def sample_files_def scratch_world_def read_csv_def)

lemma merge_sample:
  "fst (merge_csv_files s2n horizon_ts sample_files out (sample_world a b))
     = Some (merge_frames s2n horizon_ts [a, b])"
  by (rule merge_on_files [OF read_sample]) simp

lemma clean_sample:
  "clean_rows no_str 1793000000 [sample_a, sample_b]
     = [mk_row (Some 1230768000100) (Str ''A1''), mk_row (Some 1230768000200) (Str ''A2'')]"
  by (simp add: merge_eval sample_a_def sample_b_def)

lemma half_not_int: "(3000000000001 / 2 :: rat) \<notin> \<int>"
proof
  assume "(3000000000001 / 2 :: rat) \<in> \<int>"
  then obtain n :: int where "(3000000000001 / 2 :: rat) = of_int n"
    unfolding Ints_def by blast
  then have "(3000000000001 :: rat) = 2 * of_int n"
    by linarith
  then have "(of_int 3000000000001 :: rat) = of_int (2 * n)"
    by simp
  then have "3000000000001 = 2 * n"
    by (simp only: of_int_eq_iff)
  then show False by presburger
qed

lemma column_open_time:
  "column (merge_frames s2n horizon_ts dfs) ''open_time''
     = map (\<lambda>k. Some (Number (open_time k))) (clean_rows s2n horizon_ts dfs)"
  by (simp add: column_def merge_frames_def select_with_datetime comp_def)

lemma clean_rows_from_input:
  assumes "k \<in> set (clean_rows s2n horizon_ts dfs)"
  shows "\<exists>r\<in>set (concat dfs). k = coerce_open_time s2n r
           \<and> valid_mask horizon_ts (coerce_open_time s2n r)"
proof -
  from assms clean_rows_subset [of s2n horizon_ts dfs]
  have "k \<in> set (filter (valid_mask horizon_ts) (map (coerce_open_time s2n) (concat dfs)))"
    by blast
  then show ?thesis by (auto simp del: set_concat)
qed

lemma open_time_in_output:
  "Some (Number x) \<in> set (column (merge_frames s2n horizon_ts dfs) ''open_time'')
     \<longleftrightarrow> (\<exists>v. x = Some v \<and> (\<exists>r\<in>set (concat dfs). to_numeric s2n (open_time r) = Some v
            \<and> of_int min_timestamp \<le> v \<and> v \<le> of_int (max_timestamp horizon_ts)))"
proof -
  let ?out = "clean_rows s2n horizon_ts dfs"
  note k = clean_rows_keys [of s2n horizon_ts dfs]
  have "Some (Number x) \<in> set (column (merge_frames s2n horizon_ts dfs) ''open_time'')
          \<longleftrightarrow> x \<in> set (map open_time ?out)"
    by (auto simp: column_open_time)
  also have "\<dots> \<longleftrightarrow> x \<in> Some ` set (map num_key ?out)"
    using k by (metis list.set_map)
  also have "\<dots> \<longleftrightarrow> (\<exists>v. x = Some v \<and> v \<in> set (map num_key ?out))"
    by blast
  finally show ?thesis
    using k by (simp del: set_concat set_map)
qed

subsection \<open>No input\<close>

text \<open>
  C8. The merge applied to zero input batches returns \<^verbatim>\<open>None\<close> and leaves the machine as
  it was: no output file is written.
\<close>

theorem merge_zero_batches:
  "merge_csv_files s2n horizon_ts [] output_filename w = (None, w)"
  by (simp add: merge_csv_files_def)

subsection \<open>The validity filter\<close>

text \<open>
  C3, as stated, fails in its last part: whether a row with \<^verbatim>\<open>open_time\<close> 1230768000000
  is kept depends on the clock. On a machine whose clock reads the epoch (a clock that
  was never set), line 180 yields 31536000000, the range from 1230768000000 to that
  bound is empty, and the merge drops the row at the minimum with all the others.
\<close>

theorem exact_minimum_dropped_counterexample:
  "max_timestamp 31536000 = 31536000000
   \<and> fst (merge_csv_files no_str 31536000 sample_files ''out.csv'' (sample_world sample_edge []))
       = Some \<lparr>df_columns = ''datetime'' # columns, df_rows = []\<rparr>"
proof -
  have m: "max_timestamp 31536000 = 31536000000"
    by (simp add: max_timestamp_def py_int_def)
  have "clean_rows no_str 31536000 [sample_edge, []] = []"
    by (simp add: merge_eval sample_edge_def)
  then have "merge_frames no_str 31536000 [sample_edge, []]
               = \<lparr>df_columns = ''datetime'' # columns, df_rows = []\<rparr>"
    by (simp add: merge_frames_def cols_eq)
  with merge_sample [of no_str 31536000 "''out.csv''" sample_edge "[]"] m
  show ?thesis by simp
qed

text \<open>
  C3, amended. For every merged frame and every row of the input batches, the row's
  coerced \<^verbatim>\<open>open_time\<close> occurs in the frame exactly when the coercion gave a number and
  that number lies in the inclusive range from 1230768000000 to the bound of line 180;
  every row of the frame comes from an input row that meets this condition. The value
  1230767999999 never occurs in the frame; the value 1230768000000 of an input row
  occurs in it whenever the bound of line 180 is at least 1230768000000.
\<close>

theorem merge_validity_filter:
  assumes "fst (merge_csv_files s2n horizon_ts csv_files output_filename w) = Some df"
  shows "(\<forall>r\<in>set (concat (read_all w csv_files)).
            Some (Number (to_numeric s2n (open_time r))) \<in> set (column df ''open_time'')
              \<longleftrightarrow> (\<exists>v. to_numeric s2n (open_time r) = Some v \<and> 1230768000000 \<le> v
                     \<and> v \<le> of_int (max_timestamp horizon_ts)))
         \<and> (\<forall>row\<in>set (df_rows df). \<exists>r\<in>set (concat (read_all w csv_files)).
               row = select_cols cols (with_datetime (coerce_open_time s2n r))
               \<and> (\<exists>v. to_numeric s2n (open_time r) = Some v \<and> 1230768000000 \<le> v
                     \<and> v \<le> of_int (max_timestamp horizon_ts)))
         \<and> Some (Number (Some 1230767999999)) \<notin> set (column df ''open_time'')
         \<and> ((\<exists>r\<in>set (concat (read_all w csv_files)). open_time r = Num 1230768000000)
               \<and> 1230768000000 \<le> max_timestamp horizon_ts
             \<longrightarrow> Some (Number (Some 1230768000000)) \<in> set (column df ''open_time''))"
proof -
  let ?dfs = "read_all w csv_files"
  from assms have df: "df = merge_frames s2n horizon_ts ?dfs"
    by (simp add: merge_Some)
  note io = open_time_in_output [of _ s2n horizon_ts ?dfs, folded df]
  have a: "Some (Number (to_numeric s2n (open_time r))) \<in> set (column df ''open_time'')
              \<longleftrightarrow> (\<exists>v. to_numeric s2n (open_time r) = Some v \<and> 1230768000000 \<le> v
                     \<and> v \<le> of_int (max_timestamp horizon_ts))"
    if "r \<in> set (concat ?dfs)" for r
  proof
    assume "Some (Number (to_numeric s2n (open_time r))) \<in> set (column df ''open_time'')"
    then obtain v where "to_numeric s2n (open_time r) = Some v"
        "\<exists>r'\<in>set (concat ?dfs). to_numeric s2n (open_time r') = Some v
            \<and> of_int min_timestamp \<le> v \<and> v \<le> of_int (max_timestamp horizon_ts)"
      unfolding io by blast
    then show "\<exists>v. to_numeric s2n (open_time r) = Some v \<and> 1230768000000 \<le> v
                     \<and> v \<le> of_int (max_timestamp horizon_ts)"
      by (auto simp: min_timestamp_def simp del: set_concat)
  next
    assume "\<exists>v. to_numeric s2n (open_time r) = Some v \<and> 1230768000000 \<le> v
                     \<and> v \<le> of_int (max_timestamp horizon_ts)"
    then obtain v where v: "to_numeric s2n (open_time r) = Some v" "1230768000000 \<le> v"
        "v \<le> of_int (max_timestamp horizon_ts)"
      by blast
    from v(2) have "of_int min_timestamp \<le> v" by (simp add: min_timestamp_def)
    with that v(1,3) have "Some (Number (Some v)) \<in> set (column df ''open_time'')"
      unfolding io by blast
    with v(1) show "Some (Number (to_numeric s2n (open_time r))) \<in> set (column df ''open_time'')"
      by simp
  qed
  have b: "\<exists>r\<in>set (concat ?dfs).
               row = select_cols cols (with_datetime (coerce_open_time s2n r))
               \<and> (\<exists>v. to_numeric s2n (open_time r) = Some v \<and> 1230768000000 \<le> v
                     \<and> v \<le> of_int (max_timestamp horizon_ts))"
    if "row \<in> set (df_rows df)" for row
  proof -
    from that obtain k where k: "k \<in> set (clean_rows s2n horizon_ts ?dfs)"
        "row = select_cols cols (with_datetime k)"
      by (auto simp: df merge_frames_def)
    from clean_rows_from_input [OF k(1)] obtain r where r: "r \<in> set (concat ?dfs)"
        "k = coerce_open_time s2n r" "valid_mask horizon_ts (coerce_open_time s2n r)"
      by blast
    from r(3) have "\<exists>v. to_numeric s2n (open_time r) = Some v \<and> 1230768000000 \<le> v
                     \<and> v \<le> of_int (max_timestamp horizon_ts)"
      by (simp add: valid_mask_coerce min_timestamp_def)
    with r(1,2) k(2) show ?thesis by blast
  qed
  have c: "Some (Number (Some 1230767999999)) \<notin> set (column df ''open_time'')"
    unfolding io by (simp add: min_timestamp_def del: set_concat)
  have d: "Some (Number (Some 1230768000000)) \<in> set (column df ''open_time'')"
    if "\<exists>r\<in>set (concat ?dfs). open_time r = Num 1230768000000"
      and "1230768000000 \<le> max_timestamp horizon_ts"
  proof -
    from that(1) obtain r where r: "r \<in> set (concat ?dfs)" "open_time r = Num 1230768000000"
      by blast
    then have n: "to_numeric s2n (open_time r) = Some 1230768000000"
      by (simp add: to_numeric_def)
    from that(2) have "(of_int 1230768000000 :: rat) \<le> of_int (max_timestamp horizon_ts)"
      by (simp only: of_int_le_iff)
    then have "(1230768000000 :: rat) \<le> of_int (max_timestamp horizon_ts)" by simp
    with r(1) n show ?thesis
      unfolding io by (auto simp: min_timestamp_def simp del: set_concat)
  qed
  from a b c d show ?thesis by blast
qed

theorem merge_validity_filter_witness:
  "fst (merge_csv_files no_str 1793000000 sample_files ''out.csv'' (sample_world sample_edge []))
     = Some (merge_frames no_str 1793000000 [sample_edge, []])
   \<and> list_ex (\<lambda>r. open_time r = Num 1230768000000)
        (concat (read_all (sample_world sample_edge []) sample_files))
   \<and> 1230768000000 \<le> max_timestamp 1793000000
   \<and> Some (Number (Some 1230768000000))
        \<in> set (column (merge_frames no_str 1793000000 [sample_edge, []]) ''open_time'')
   \<and> Some (Number (Some 1230767999999))
        \<notin> set (column (merge_frames no_str 1793000000 [sample_edge, []]) ''open_time'')
   \<and> column (merge_frames no_str 1793000000 [sample_edge, []]) ''close''
       = [Some (Raw (Str ''at''))]"
proof -
  let ?df = "merge_frames no_str 1793000000 [sample_edge, []]"
  have h: "fst (merge_csv_files no_str 1793000000 sample_files ''out.csv''
                  (sample_world sample_edge [])) = Some ?df"
    by (rule merge_sample)
  have e: "\<exists>r\<in>set (concat (read_all (sample_world sample_edge []) sample_files)).
             open_time r = Num 1230768000000"
    by (simp add: read_sample sample_edge_def mk_row_def)
  then have e': "list_ex (\<lambda>r. open_time r = Num 1230768000000)
        (concat (read_all (sample_world sample_edge []) sample_files))"
    by (simp only: list_ex_iff)
  have b: "1230768000000 \<le> max_timestamp 1793000000"
    by (simp add: max_timestamp_def py_int_def)
  note t = merge_validity_filter [OF h]
  from t e b have i: "Some (Number (Some 1230768000000)) \<in> set (column ?df ''open_time'')"
    by blast
  from t have o: "Some (Number (Some 1230767999999)) \<notin> set (column ?df ''open_time'')"
    by blast
  have "clean_rows no_str 1793000000 [sample_edge, []]
          = [mk_row (Some 1230768000000) (Str ''at'')]"
    by (simp add: merge_eval sample_edge_def)
  then have c: "column ?df ''close'' = [Some (Raw (Str ''at''))]"
    by (simp add: column_def merge_frames_def select_with_datetime mk_row_def)
  from h e' b i o c show ?thesis by blast
qed

subsection \<open>Order and uniqueness\<close>



subsection \<open>The derived column and the column order\<close>

text \<open>
  C5. In every frame the merge produces, the columns are \<^verbatim>\<open>datetime\<close>, then
  \<^verbatim>\<open>open_time\<close>, then the other original columns in their original order; every row
  has exactly these labels, and its \<^verbatim>\<open>datetime\<close> is the conversion of its own
  \<^verbatim>\<open>open_time\<close>: the instant that many milliseconds after the epoch.
\<close>

theorem datetime_and_columns:
  assumes "fst (merge_csv_files s2n horizon_ts csv_files output_filename w) = Some df"
  shows "df_columns df = ''datetime'' # ''open_time'' # filter (\<lambda>c. c \<noteq> ''open_time'') columns
         \<and> (\<forall>row\<in>set (df_rows df). map fst row = df_columns df
               \<and> (\<exists>t. map_of row ''open_time'' = Some (Number (Some t))
                     \<and> map_of row ''datetime'' = Some (to_datetime (Some t))
                     \<and> to_datetime (Some t) = Timestamp t))"
proof -
  let ?dfs = "read_all w csv_files"
  from assms have df: "df = merge_frames s2n horizon_ts ?dfs"
    by (simp add: merge_Some)
  have c: "df_columns df = ''datetime'' # ''open_time'' # filter (\<lambda>c. c \<noteq> ''open_time'') columns"
    by (simp add: df merge_frames_def cols_eq) (simp add: columns_def)
  have r: "map fst row = df_columns df
               \<and> (\<exists>t. map_of row ''open_time'' = Some (Number (Some t))
                     \<and> map_of row ''datetime'' = Some (to_datetime (Some t))
                     \<and> to_datetime (Some t) = Timestamp t)"
    if "row \<in> set (df_rows df)" for row
  proof -
    from that obtain k where k: "k \<in> set (clean_rows s2n horizon_ts ?dfs)"
        "row = select_cols cols (with_datetime k)"
      by (auto simp: df merge_frames_def)
    from k(1) have "valid_mask horizon_ts k"
      using clean_rows_subset [of s2n horizon_ts ?dfs] by auto
    then have o: "open_time k = Some (num_key k)"
      by (rule valid_mask_Some)
    have "map fst row = ''datetime'' # columns"
      by (simp add: k(2) select_with_datetime columns_def)
    then have "map fst row = df_columns df"
      by (simp add: df merge_frames_def cols_eq)
    moreover have "map_of row ''open_time'' = Some (Number (Some (num_key k)))"
      by (simp add: k(2) select_with_datetime o)
    moreover have "map_of row ''datetime'' = Some (to_datetime (Some (num_key k)))"
      by (simp add: k(2) select_with_datetime o)
    moreover have "to_datetime (Some (num_key k)) = Timestamp (num_key k)"
      by (simp add: to_datetime_def)
    ultimately show ?thesis by blast
  qed
  from c r show ?thesis by blast
qed

theorem datetime_and_columns_witness:
  "fst (merge_csv_files no_str 1793000000 sample_files ''out.csv'' (sample_world sample_a sample_b))
     = Some (merge_frames no_str 1793000000 [sample_a, sample_b])
   \<and> df_columns (merge_frames no_str 1793000000 [sample_a, sample_b])
       = [''datetime'', ''open_time'', ''open'', ''high'', ''low'', ''close'', ''volume'',
          ''close_time'', ''quote_volume'', ''trades'', ''taker_buy_base'',
          ''taker_buy_quote'', ''ignore'']
   \<and> column (merge_frames no_str 1793000000 [sample_a, sample_b]) ''datetime''
       = [Some (Timestamp 1230768000100), Some (Timestamp 1230768000200)]
   \<and> list_all (\<lambda>row. map fst row = df_columns (merge_frames no_str 1793000000 [sample_a, sample_b]))
        (df_rows (merge_frames no_str 1793000000 [sample_a, sample_b]))"
proof -
  let ?df = "merge_frames no_str 1793000000 [sample_a, sample_b]"
  have h: "fst (merge_csv_files no_str 1793000000 sample_files ''out.csv''
                  (sample_world sample_a sample_b)) = Some ?df"
    by (rule merge_sample)
  note t = datetime_and_columns [OF h]
  from t have c: "df_columns ?df
       = [''datetime'', ''open_time'', ''open'', ''high'', ''low'', ''close'', ''volume'',
          ''close_time'', ''quote_volume'', ''trades'', ''taker_buy_base'',
          ''taker_buy_quote'', ''ignore'']"
    by (simp add: columns_def)
  have d: "column ?df ''datetime'' = [Some (Timestamp 1230768000100), Some (Timestamp 1230768000200)]"
    by (simp add: column_def merge_frames_def clean_sample select_with_datetime mk_row_def
        to_datetime_def)
  from t have r: "\<forall>row\<in>set (df_rows ?df). map fst row = df_columns ?df"
    by blast
  have "list_all (\<lambda>row. map fst row = df_columns ?df) (df_rows ?df)"
    unfolding list_all_iff by (rule r)
  with h c d show ?thesis by blast
qed

subsection \<open>Retained timestamps\<close>

text \<open>
  C9, as stated, fails: a row whose \<^verbatim>\<open>open_time\<close> is 1500000000000.5 passes the filter
  and is part of the merged frame, and that value is no integer. The program never tests
  for an integer.
\<close>

theorem integer_open_time_counterexample:
  "fst (merge_csv_files no_str 1793000000 sample_files ''out.csv'' (sample_world sample_half []))
     = Some (merge_frames no_str 1793000000 [sample_half, []])
   \<and> column (merge_frames no_str 1793000000 [sample_half, []]) ''open_time''
       = [Some (Number (Some (3000000000001 / 2)))]
   \<and> (3000000000001 / 2 :: rat) \<notin> \<int>"
proof -
  have "valid_mask 1793000000 (coerce_open_time no_str (mk_row (Num (3000000000001 / 2)) (Num 1)))"
    by (simp add: valid_mask_def coerce_open_time_def to_numeric_def mk_row_def
        min_timestamp_def max_timestamp_def py_int_def)
  then have "clean_rows no_str 1793000000 [sample_half, []]
               = [coerce_open_time no_str (mk_row (Num (3000000000001 / 2)) (Num 1))]"
    unfolding sample_half_def by (rule clean_rows_single)
  then have "column (merge_frames no_str 1793000000 [sample_half, []]) ''open_time''
       = [Some (Number (Some (3000000000001 / 2)))]"
    by (simp add: column_def merge_frames_def select_with_datetime mk_row_def to_numeric_def)
  with merge_sample [of no_str 1793000000 "''out.csv''" sample_half "[]"] half_not_int
  show ?thesis by blast
qed

text \<open>
  C9, amended. In every frame the merge produces, every \<^verbatim>\<open>open_time\<close> is a number (not
  NaN, not a string) within the accepted range, from 1230768000000 to the maximum of
  line 180.
\<close>

theorem retained_open_time_numeric:
  assumes "fst (merge_csv_files s2n horizon_ts csv_files output_filename w) = Some df"
  shows "\<forall>c\<in>set (column df ''open_time'').
           \<exists>v. c = Some (Number (Some v)) \<and> 1230768000000 \<le> v
                \<and> v \<le> of_int (max_timestamp horizon_ts)"
proof
  fix c
  assume "c \<in> set (column df ''open_time'')"
  let ?dfs = "read_all w csv_files"
  from assms have df: "df = merge_frames s2n horizon_ts ?dfs"
    by (simp add: merge_Some)
  have "column df ''open_time'' = map (\<lambda>r. Some (Number (open_time r))) (clean_rows s2n horizon_ts ?dfs)"
    by (simp add: df column_def merge_frames_def select_with_datetime comp_def)
  with \<open>c \<in> set (column df ''open_time'')\<close>
  obtain k where k: "k \<in> set (clean_rows s2n horizon_ts ?dfs)" "c = Some (Number (open_time k))"
    by auto
  from k(1) have v: "valid_mask horizon_ts k"
    using clean_rows_subset [of s2n horizon_ts ?dfs] by auto
  from valid_mask_Some [OF v] valid_mask_range [OF v] k(2)
  show "\<exists>v. c = Some (Number (Some v)) \<and> 1230768000000 \<le> v
                \<and> v \<le> of_int (max_timestamp horizon_ts)"
    by (simp add: min_timestamp_def)
qed

theorem retained_open_time_numeric_witness:
  "fst (merge_csv_files no_str 1793000000 sample_files ''out.csv'' (sample_world sample_a sample_b))
     = Some (merge_frames no_str 1793000000 [sample_a, sample_b])
   \<and> list_all (\<lambda>c. \<exists>v. c = Some (Number (Some v)) \<and> 1230768000000 \<le> v
                \<and> v \<le> of_int (max_timestamp 1793000000))
        (column (merge_frames no_str 1793000000 [sample_a, sample_b]) ''open_time'')
   \<and> length (column (merge_frames no_str 1793000000 [sample_a, sample_b]) ''open_time'') = 2"
proof -
  let ?df = "merge_frames no_str 1793000000 [sample_a, sample_b]"
  have h: "fst (merge_csv_files no_str 1793000000 sample_files ''out.csv''
                  (sample_world sample_a sample_b)) = Some ?df"
    by (rule merge_sample)
  have "list_all (\<lambda>c. \<exists>v. c = Some (Number (Some v)) \<and> 1230768000000 \<le> v
                \<and> v \<le> of_int (max_timestamp 1793000000)) (column ?df ''open_time'')"
    using retained_open_time_numeric [OF h] by (simp only: list_all_iff)
  moreover have "length (column ?df ''open_time'') = 2"
    by (simp add: column_def merge_frames_def clean_sample)
  ultimately show ?thesis using h by blast
qed

subsection \<open>Batches without a valid row\<close>

text \<open>
  C10. When at least one file reads and no row passes the validity filter, the merge
  returns the frame with the thirteen columns and no row, and writes exactly that (the
  header alone) to the output file. It returns \<^verbatim>\<open>None\<close> exactly when no file reads, which
  includes the empty list of files.
\<close>

theorem merge_all_invalid:
  "(read_all w csv_files \<noteq> []
      \<and> (\<forall>r\<in>set (concat (read_all w csv_files)).
             \<not> valid_mask horizon_ts (coerce_open_time s2n r))
     \<longrightarrow> merge_csv_files s2n horizon_ts csv_files output_filename w =
           (Some \<lparr>df_columns = ''datetime'' # columns, df_rows = []\<rparr>,
            w\<lparr>outputs := (outputs w)(output_filename \<mapsto>
                 \<lparr>df_columns = ''datetime'' # columns, df_rows = []\<rparr>)\<rparr>))
   \<and> (fst (merge_csv_files s2n horizon_ts csv_files output_filename w) = None
        \<longleftrightarrow> (\<forall>p\<in>set csv_files. \<exists>e. read_csv w p = Inl e))"
proof -
  have a: "merge_csv_files s2n horizon_ts csv_files output_filename w =
           (Some \<lparr>df_columns = ''datetime'' # columns, df_rows = []\<rparr>,
            w\<lparr>outputs := (outputs w)(output_filename \<mapsto>
                 \<lparr>df_columns = ''datetime'' # columns, df_rows = []\<rparr>)\<rparr>)"
    if "read_all w csv_files \<noteq> []"
      and "\<forall>r\<in>set (concat (read_all w csv_files)).
             \<not> valid_mask horizon_ts (coerce_open_time s2n r)"
  proof -
    from that(2) have "clean_rows s2n horizon_ts (read_all w csv_files) = []"
      by (rule clean_rows_all_invalid)
    then have "merge_frames s2n horizon_ts (read_all w csv_files)
                 = \<lparr>df_columns = ''datetime'' # columns, df_rows = []\<rparr>"
      by (simp add: merge_frames_def cols_eq)
    with that(1) show ?thesis
      by (simp add: merge_csv_files_def Let_def to_csv_def)
  qed
  have "fst (merge_csv_files s2n horizon_ts csv_files output_filename w) = None
        \<longleftrightarrow> read_all w csv_files = []"
    by (simp add: merge_csv_files_def Let_def)
  then have b: "fst (merge_csv_files s2n horizon_ts csv_files output_filename w) = None
        \<longleftrightarrow> (\<forall>p\<in>set csv_files. \<exists>e. read_csv w p = Inl e)"
    by (simp only: read_all_empty)
  from a b show ?thesis by blast
qed

theorem merge_all_invalid_witness:
  "read_all (sample_world spec_a spec_b) sample_files \<noteq> []
   \<and> list_all (\<lambda>r. \<not> valid_mask 1793000000 (coerce_open_time no_str r))
        (concat (read_all (sample_world spec_a spec_b) sample_files))
   \<and> merge_csv_files no_str 1793000000 sample_files ''out.csv'' (sample_world spec_a spec_b) =
           (Some \<lparr>df_columns = ''datetime'' # columns, df_rows = []\<rparr>,
            (sample_world spec_a spec_b)\<lparr>outputs := (outputs (sample_world spec_a spec_b))(''out.csv'' \<mapsto>
                 \<lparr>df_columns = ''datetime'' # columns, df_rows = []\<rparr>)\<rparr>)
   \<and> list_all (\<lambda>p. \<exists>e. read_csv (scratch_world ''temp_BTCUSDT'' [(''a.csv'', Unparseable)]) p = Inl e)
        sample_files
   \<and> fst (merge_csv_files no_str 1793000000 sample_files ''out.csv''
             (scratch_world ''temp_BTCUSDT'' [(''a.csv'', Unparseable)])) = None"
proof -
  let ?w = "sample_world spec_a spec_b"
  let ?u = "scratch_world ''temp_BTCUSDT'' [(''a.csv'', Unparseable)]"
  have a: "read_all ?w sample_files \<noteq> []"
    by (simp add: read_sample)
  have b: "\<forall>r\<in>set (concat (read_all ?w sample_files)).
             \<not> valid_mask 1793000000 (coerce_open_time no_str r)"
    by (simp add: read_sample spec_a_def spec_b_def merge_eval)
  have c: "\<forall>p\<in>set sample_files. \<exists>e. read_csv ?u p = Inl e"
    by (simp add: sample_files_def scratch_world_def read_csv_def)
  note t = merge_all_invalid [of ?w sample_files 1793000000 no_str "''out.csv''"]
  note u = merge_all_invalid [of ?u sample_files 1793000000 no_str "''out.csv''"]
  from t a b have "merge_csv_files no_str 1793000000 sample_files ''out.csv'' ?w =
           (Some \<lparr>df_columns = ''datetime'' # columns, df_rows = []\<rparr>,
            ?w\<lparr>outputs := (outputs ?w)(''out.csv'' \<mapsto>
                 \<lparr>df_columns = ''datetime'' # columns, df_rows = []\<rparr>)\<rparr>)"
    by blast
  moreover from u c have "fst (merge_csv_files no_str 1793000000 sample_files ''out.csv'' ?u) = None"
    by blast
  moreover from b have "list_all (\<lambda>r. \<not> valid_mask 1793000000 (coerce_open_time no_str r))
        (concat (read_all ?w sample_files))"
    by (simp only: list_all_iff)
  moreover from c have "list_all (\<lambda>p. \<exists>e. read_csv ?u p = Inl e) sample_files"
    by (simp only: list_all_iff)
  ultimately show ?thesis using a by blast
qed

subsection \<open>Duplicates across batches\<close>

text \<open>
  C1, as stated, fails: with the timestamps 100, 200 and 300 every row lies below the
  minimum of line 179 and the validity filter drops it, so the merged frame has no row
  instead of three.
\<close>

theorem spec_example_counterexample:
  "fst (merge_csv_files no_str 1793000000 sample_files ''out.csv'' (sample_world spec_a spec_b))
     = Some \<lparr>df_columns = ''datetime'' # columns, df_rows = []\<rparr>"
proof -
  have "clean_rows no_str 1793000000 [spec_a, spec_b] = []"
    by (simp add: merge_eval spec_a_def spec_b_def)
  then have "merge_frames no_str 1793000000 [spec_a, spec_b]
               = \<lparr>df_columns = ''datetime'' # columns, df_rows = []\<rparr>"
    by (simp add: merge_frames_def cols_eq)
  with merge_sample [of no_str 1793000000 "''out.csv''" spec_a spec_b]
  show ?thesis by simp
qed

text \<open>
  C1, amended. Let batch A hold rows with timestamps \<open>t1 < t2\<close> and batch B rows with
  timestamps \<open>t2 < t3\<close>, all within the accepted range. The merged frame has exactly
  three rows, with timestamps \<open>t1\<close>, \<open>t2\<close>, \<open>t3\<close>, and the row for \<open>t2\<close> is the one
  of batch A, the batch concatenated first, with all its other fields.
\<close>

theorem first_seen_wins:
  assumes "read_all w csv_files = [[a1, a2], [b2, b3]]"
    and "to_numeric s2n (open_time a1) = Some t1"
    and "to_numeric s2n (open_time a2) = Some t2"
    and "to_numeric s2n (open_time b2) = Some t2"
    and "to_numeric s2n (open_time b3) = Some t3"
    and "t1 < t2" and "t2 < t3"
    and "1230768000000 \<le> t1" and "t3 \<le> of_int (max_timestamp horizon_ts)"
  shows "\<exists>df. fst (merge_csv_files s2n horizon_ts csv_files output_filename w) = Some df
           \<and> length (df_rows df) = 3
           \<and> column df ''open_time''
               = [Some (Number (Some t1)), Some (Number (Some t2)), Some (Number (Some t3))]
           \<and> df_rows df = map (\<lambda>r. select_cols cols (with_datetime (coerce_open_time s2n r)))
                             [a1, a2, b3]"
proof -
  let ?df = "merge_frames s2n horizon_ts [[a1, a2], [b2, b3]]"
  have m: "fst (merge_csv_files s2n horizon_ts csv_files output_filename w) = Some ?df"
    by (rule merge_on_files [OF assms(1)]) simp
  from assms(8) have "of_int min_timestamp \<le> t1"
    by (simp add: min_timestamp_def)
  with assms have c: "clean_rows s2n horizon_ts [[a1, a2], [b2, b3]]
                        = map (coerce_open_time s2n) [a1, a2, b3]"
    by (intro first_seen_rows)
  then have r: "df_rows ?df = map (\<lambda>r. select_cols cols (with_datetime (coerce_open_time s2n r)))
                             [a1, a2, b3]"
    by (simp add: merge_frames_def)
  then have l: "length (df_rows ?df) = 3"
    by simp
  have "column ?df ''open_time''
          = [Some (Number (Some t1)), Some (Number (Some t2)), Some (Number (Some t3))]"
    unfolding column_def r using assms(2,3,5) by (simp add: select_with_datetime)
  with m r l show ?thesis by blast
qed

theorem first_seen_wins_witness:
  "read_all (sample_world shifted_a shifted_b) sample_files = [shifted_a, shifted_b]
   \<and> (1230768000100 :: rat) < 1230768000200 \<and> (1230768000200 :: rat) < 1230768000300
   \<and> (1230768000000 :: rat) \<le> 1230768000100
   \<and> (1230768000300 :: rat) \<le> of_int (max_timestamp 1793000000)
   \<and> fst (merge_csv_files no_str 1793000000 sample_files ''out.csv''
             (sample_world shifted_a shifted_b))
       = Some (merge_frames no_str 1793000000 [shifted_a, shifted_b])
   \<and> length (df_rows (merge_frames no_str 1793000000 [shifted_a, shifted_b])) = 3
   \<and> column (merge_frames no_str 1793000000 [shifted_a, shifted_b]) ''open_time''
       = [Some (Number (Some 1230768000100)), Some (Number (Some 1230768000200)),
          Some (Number (Some 1230768000300))]
   \<and> column (merge_frames no_str 1793000000 [shifted_a, shifted_b]) ''close''
       = [Some (Raw (Str ''A1'')), Some (Raw (Str ''A2'')), Some (Raw (Str ''B3''))]"
proof -
  let ?a1 = "mk_row (Num 1230768000100) (Str ''A1'')"
  let ?a2 = "mk_row (Num 1230768000200) (Str ''A2'')"
  let ?b2 = "mk_row (Num 1230768000200) (Str ''B2'')"
  let ?b3 = "mk_row (Num 1230768000300) (Str ''B3'')"
  have r: "read_all (sample_world shifted_a shifted_b) sample_files = [[?a1, ?a2], [?b2, ?b3]]"
    by (simp add: read_sample shifted_a_def shifted_b_def)
  have n: "to_numeric no_str (open_time ?a1) = Some 1230768000100"
      "to_numeric no_str (open_time ?a2) = Some 1230768000200"
      "to_numeric no_str (open_time ?b2) = Some 1230768000200"
      "to_numeric no_str (open_time ?b3) = Some 1230768000300"
    by (simp_all add: to_numeric_def mk_row_def)
  have o: "(1230768000100 :: rat) < 1230768000200" "(1230768000200 :: rat) < 1230768000300"
      "(1230768000000 :: rat) \<le> 1230768000100"
      "(1230768000300 :: rat) \<le> of_int (max_timestamp 1793000000)"
    by (simp_all add: max_timestamp_def py_int_def)
  from first_seen_wins [OF r n o, of "''out.csv''"]
  obtain df where df: "fst (merge_csv_files no_str 1793000000 sample_files ''out.csv''
             (sample_world shifted_a shifted_b)) = Some df"
      "length (df_rows df) = 3"
      "column df ''open_time''
       = [Some (Number (Some 1230768000100)), Some (Number (Some 1230768000200)),
          Some (Number (Some 1230768000300))]"
      "df_rows df = map (\<lambda>r. select_cols cols (with_datetime (coerce_open_time no_str r)))
                             [?a1, ?a2, ?b3]"
    by blast
  from df(1) have e: "df = merge_frames no_str 1793000000 [shifted_a, shifted_b]"
    by (simp add: merge_sample)
  from df(4) have "column df ''close''
       = [Some (Raw (Str ''A1'')), Some (Raw (Str ''A2'')), Some (Raw (Str ''B3''))]"
    by (simp add: column_def select_with_datetime coerce_open_time_def mk_row_def)
  with df(1,2,3) o show ?thesis
    unfolding e by (simp add: read_sample)
qed


section \<open>Properties of the fetcher\<close>

lemma attempts_transient_step:
  "transient (fetch url k) \<Longrightarrow>
     attempts fetch self url retries (k # rest) w =
       (if k + 1 < retries
        then attempts fetch self url retries rest
               (log_event (Sleep 2000) (log_event (Get url) w))
        else (None, log_event (Get url) w))"
  by (cases "fetch url k") (auto simp: transient_def Let_def)

lemma attempts_all_fail:
  "k \<le> retries \<Longrightarrow> n = retries - k \<Longrightarrow> \<forall>i<retries. transient (fetch url i) \<Longrightarrow>
     attempts fetch self url retries [k..<retries] w =
       (None, w\<lparr>trace := trace w @
          (if k < retries
           then Get url # concat (replicate (retries - k - 1) [Sleep 2000, Get url])
           else [])\<rparr>)"
proof (induction n arbitrary: k w)
  case 0
  then have "[k..<retries] = []" by simp
  with 0 show ?case by simp
next
  case (Suc n)
  then have k: "k < retries" by simp
  then have u: "[k..<retries] = k # [Suc k..<retries]"
    by (simp add: upt_conv_Cons)
  from Suc.prems(3) k have t: "transient (fetch url k)" by blast
  have step: "attempts fetch self url retries (k # [Suc k..<retries]) w =
       (if k + 1 < retries
        then attempts fetch self url retries [Suc k..<retries]
               (log_event (Sleep 2000) (log_event (Get url) w))
        else (None, log_event (Get url) w))"
    using t by (rule attempts_transient_step)
  show ?case
  proof (cases "Suc k < retries")
    case True
    let ?w = "log_event (Sleep 2000) (log_event (Get url) w)"
    have "attempts fetch self url retries [Suc k..<retries] ?w =
       (None, ?w\<lparr>trace := trace ?w @
          (if Suc k < retries
           then Get url # concat (replicate (retries - Suc k - 1) [Sleep 2000, Get url])
           else [])\<rparr>)"
      by (rule Suc.IH) (use Suc.prems in simp_all)
    with True step have "attempts fetch self url retries [k..<retries] w =
       (None, ?w\<lparr>trace := trace ?w @
           Get url # concat (replicate (retries - Suc k - 1) [Sleep 2000, Get url])\<rparr>)"
      unfolding u by simp
    moreover from True have "retries - k - 1 = Suc (retries - Suc k - 1)" by simp
    ultimately show ?thesis
      using k by (simp add: log_event_def)
  next
    case False
    with k have "retries - k - 1 = 0" by simp
    with step False k show ?thesis
      unfolding u by (simp add: log_event_def)
  qed
qed

lemma download_three_failures:
  assumes "\<forall>i<3. transient (fetch url i)"
  shows "download_and_extract fetch self url 3 w =
           (None, w\<lparr>trace := trace w @
              [Get url, Sleep 2000, Get url, Sleep 2000, Get url]\<rparr>)"
proof -
  have "concat (replicate (3 - 0 - 1) [Sleep 2000, Get url])
          = [Sleep 2000, Get url, Sleep 2000, Get url]"
    by (simp add: numeral_eq_Suc)
  with attempts_all_fail [of 0 3 3 fetch url self w] assms show ?thesis
    by (simp add: download_and_extract_def)
qed

text \<open>
  C6. A not-found answer to the first request makes \<^verbatim>\<open>download_and_extract\<close> return
  \<^verbatim>\<open>None\<close> after exactly one request and no pause. When every request fails in another
  way (it raises, or the status is an HTTP error other than 404), the requests number
  exactly \<open>retries\<close>, a pause of two seconds lies between consecutive ones, and the
  result is \<^verbatim>\<open>None\<close>, not an exception. In both cases nothing but the trace changes.
\<close>

theorem fetch_not_found_and_retries:
  "(0 < retries \<and> fetch url 0 = Response 404 content
      \<longrightarrow> download_and_extract fetch self url retries w
            = (None, w\<lparr>trace := trace w @ [Get url]\<rparr>))
   \<and> (0 < retries \<and> (\<forall>i<retries. transient (fetch url i))
      \<longrightarrow> download_and_extract fetch self url retries w
            = (None, w\<lparr>trace := trace w @
                 Get url # concat (replicate (retries - 1) [Sleep 2000, Get url])\<rparr>))"
proof -
  have a: "download_and_extract fetch self url retries w
            = (None, w\<lparr>trace := trace w @ [Get url]\<rparr>)"
    if "0 < retries" and "fetch url 0 = Response 404 content"
  proof -
    from that(1) have "[0..<retries] = 0 # [Suc 0..<retries]"
      by (simp add: upt_conv_Cons)
    with that(2) show ?thesis
      by (simp add: download_and_extract_def log_event_def)
  qed
  have b: "download_and_extract fetch self url retries w
            = (None, w\<lparr>trace := trace w @
                 Get url # concat (replicate (retries - 1) [Sleep 2000, Get url])\<rparr>)"
    if "0 < retries" and "\<forall>i<retries. transient (fetch url i)"
    using attempts_all_fail [of 0 retries retries fetch url self w] that
    by (simp add: download_and_extract_def)
  from a b show ?thesis by blast
qed

theorem fetch_not_found_and_retries_witness:
  "(0 :: nat) < 3 \<and> answer_404 ''a.zip'' 0 = Response 404 BadZipFile
   \<and> download_and_extract answer_404 btc ''a.zip'' 3 empty_world
       = (None, empty_world\<lparr>trace := [Get ''a.zip'']\<rparr>)
   \<and> list_all (\<lambda>i. transient (answer_flaky ''a.zip'' i)) [0, 1, 2]
   \<and> download_and_extract answer_flaky btc ''a.zip'' 3 empty_world
       = (None, empty_world\<lparr>trace :=
            [Get ''a.zip'', Sleep 2000, Get ''a.zip'', Sleep 2000, Get ''a.zip'']\<rparr>)"
proof -
  have p: "(0 :: nat) < 3" by simp
  have q: "answer_404 ''a.zip'' 0 = Response 404 BadZipFile"
    by (simp add: answer_404_def)
  have r: "\<forall>i<3. transient (answer_flaky ''a.zip'' i)"
    by (simp add: answer_flaky_def transient_def)
  then have r': "list_all (\<lambda>i. transient (answer_flaky ''a.zip'' i)) [0, 1, 2]"
    by simp
  have e: "concat (replicate (3 - 1) [Sleep 2000, Get ''a.zip''])
             = [Sleep 2000, Get ''a.zip'', Sleep 2000, Get ''a.zip'']"
    by (simp add: numeral_eq_Suc)
  from fetch_not_found_and_retries [of 3 answer_404 "''a.zip''" BadZipFile btc empty_world] p q
  have a: "download_and_extract answer_404 btc ''a.zip'' 3 empty_world
       = (None, empty_world\<lparr>trace := [Get ''a.zip'']\<rparr>)"
    by (simp add: empty_world_def)
  from fetch_not_found_and_retries [of 3 answer_flaky "''a.zip''" BadZipFile btc empty_world] p r
  have b: "download_and_extract answer_flaky btc ''a.zip'' 3 empty_world
       = (None, empty_world\<lparr>trace :=
            [Get ''a.zip'', Sleep 2000, Get ''a.zip'', Sleep 2000, Get ''a.zip'']\<rparr>)"
    by (simp only: e) (simp add: empty_world_def)
  from p q a r' b show ?thesis by blast
qed

section \<open>Properties of the locator\<close>

lemma month_index:
  fixes y m :: nat
  assumes "1 \<le> m" and "m \<le> 12"
  shows "(12 * y + m - 1) div 12 = y" and "(12 * y + m - 1) mod 12 + 1 = m"
proof -
  from assms obtain j where j: "m = Suc j" "j < 12"
    by (cases m) auto
  then show "(12 * y + m - 1) div 12 = y" "(12 * y + m - 1) mod 12 + 1 = m"
    by simp_all
qed

lemma month_order:
  fixes y m ny nm :: nat
  assumes "1 \<le> m" and "m \<le> 12" and "1 \<le> nm" and "nm \<le> 12"
  shows "(y < ny \<or> (y = ny \<and> m \<le> nm)) \<longleftrightarrow> 12 * y + m \<le> 12 * ny + nm"
proof (cases y ny rule: linorder_cases)
  case less
  with assms show ?thesis by simp
next
  case equal
  then show ?thesis by simp
next
  case greater
  with assms show ?thesis by simp
qed

lemma month_bound:
  fixes ny nm :: nat
  assumes "nm \<le> 12" and "ny \<le> 9999" and "\<not> (ny = 9999 \<and> nm = 12)"
  shows "12 * ny + nm \<le> 119999"
proof (cases "ny = 9999")
  case True
  with assms show ?thesis by simp
next
  case False
  with assms show ?thesis by simp
qed

lemma dt_le_first:
  "1 \<le> day now \<Longrightarrow>
     dt_le \<lparr>year = y, month = m, day = 1, hour = 0, minute = 0, second = 0, microsecond = 0\<rparr> now
       \<longleftrightarrow> y < year now \<or> (y = year now \<and> m \<le> month now)"
  by (auto simp: dt_le_def dt_fields_def)

lemma months_loop_run:
  assumes "1 \<le> month now" and "month now \<le> 12" and "1 \<le> day now" and "year now \<le> 9999"
    and "\<not> (year now = 9999 \<and> month now = 12)"
  shows "1 \<le> y \<Longrightarrow> 1 \<le> m \<Longrightarrow> m \<le> 12 \<Longrightarrow> 12 * y + m \<le> 12 * year now + month now + 1 \<Longrightarrow>
     n = 12 * year now + month now + 1 - (12 * y + m) \<Longrightarrow>
     months_loop self now y m acc =
       Inr (acc @ map (\<lambda>k. month_url self (k div 12) (k mod 12 + 1))
                    [12 * y + m - 1 ..< 12 * year now + month now])"
proof (induction n arbitrary: y m acc)
  case 0
  let ?cur = "\<lparr>year = y, month = m, day = 1, hour = 0, minute = 0, second = 0, microsecond = 0\<rparr>"
  from 0 have e: "12 * y + m = 12 * year now + month now + 1" by simp
  have b: "12 * year now + month now \<le> 119999"
    using assms(2,4,5) by (rule month_bound)
  with e "0.prems"(2) have "y \<le> 9999" by linarith
  with 0 have f: "first_of_month y m = Inr ?cur"
    by (simp add: first_of_month_def)
  from e have "\<not> 12 * y + m \<le> 12 * year now + month now" by simp
  then have "\<not> (y < year now \<or> (y = year now \<and> m \<le> month now))"
    using month_order [OF "0.prems"(2,3) assms(1,2), of y "year now"] by blast
  then have d: "\<not> dt_le ?cur now"
    using dt_le_first [OF assms(3), of y m] by blast
  from e have "[12 * y + m - 1 ..< 12 * year now + month now] = []" by simp
  with f d show ?case
    by (subst months_loop.simps) simp
next
  case (Suc n)
  let ?cur = "\<lparr>year = y, month = m, day = 1, hour = 0, minute = 0, second = 0, microsecond = 0\<rparr>"
  from Suc.prems have l: "12 * y + m \<le> 12 * year now + month now" by simp
  have b: "12 * year now + month now \<le> 119999"
    using assms(2,4,5) by (rule month_bound)
  with l Suc.prems(2) have "y \<le> 9999" by linarith
  with Suc.prems have f: "first_of_month y m = Inr ?cur"
    by (simp add: first_of_month_def)
  from l have "y < year now \<or> (y = year now \<and> m \<le> month now)"
    using month_order [OF Suc.prems(2,3) assms(1,2), of y "year now"] by blast
  then have d: "dt_le ?cur now"
    using dt_le_first [OF assms(3), of y m] by blast
  have u: "[12 * y + m - 1 ..< 12 * year now + month now]
             = (12 * y + m - 1) # [12 * y + m ..< 12 * year now + month now]"
    using l Suc.prems(2) by (simp add: upt_conv_Cons)
  note dm = month_index [OF Suc.prems(2,3), of y]
  show ?case
  proof (cases "m = 12")
    case True
    have "months_loop self now (y + 1) 1 (acc @ [month_url self y m]) =
       Inr ((acc @ [month_url self y m]) @ map (\<lambda>k. month_url self (k div 12) (k mod 12 + 1))
                    [12 * (y + 1) + 1 - 1 ..< 12 * year now + month now])"
      by (rule Suc.IH) (use Suc.prems True in simp_all)
    moreover have "12 * (y + 1) + 1 - 1 = 12 * y + m"
      using True by simp
    ultimately have "months_loop self now (y + 1) 1 (acc @ [month_url self y m]) =
       Inr (acc @ map (\<lambda>k. month_url self (k div 12) (k mod 12 + 1))
                    [12 * y + m - 1 ..< 12 * year now + month now])"
      by (simp only: u list.map dm append_assoc append.simps)
    with f d True show ?thesis
      by (subst months_loop.simps) simp
  next
    case False
    have "months_loop self now y (m + 1) (acc @ [month_url self y m]) =
       Inr ((acc @ [month_url self y m]) @ map (\<lambda>k. month_url self (k div 12) (k mod 12 + 1))
                    [12 * y + (m + 1) - 1 ..< 12 * year now + month now])"
      by (rule Suc.IH) (use Suc.prems False in simp_all)
    moreover have "12 * y + (m + 1) - 1 = 12 * y + m"
      by simp
    ultimately have "months_loop self now y (m + 1) (acc @ [month_url self y m]) =
       Inr (acc @ map (\<lambda>k. month_url self (k div 12) (k mod 12 + 1))
                    [12 * y + m - 1 ..< 12 * year now + month now])"
      by (simp only: u list.map dm append_assoc append.simps)
    with f d False show ?thesis
      by (subst months_loop.simps) simp
  qed
qed

lemma valid_from_start:
  assumes "1 \<le> month now" and "month now \<le> 12" and "1 \<le> day now" and "year now \<le> 9999"
    and "\<not> (year now = 9999 \<and> month now = 12)"
    and "default_start_year self \<le> year now"
  shows "generate_urls_by_pattern self now
           = Inr (all_months self (default_start_year self) now)"
proof -
  let ?s = "default_start_year self"
  have s: "1 \<le> ?s" by (simp add: default_start_year_def)
  from assms(1,6) have b: "12 * ?s + 1 \<le> 12 * year now + month now + 1" by simp
  have "months_loop self now ?s 1 [] =
          Inr ([] @ map (\<lambda>k. month_url self (k div 12) (k mod 12 + 1))
                     [12 * ?s + 1 - 1 ..< 12 * year now + month now])"
    by (rule months_loop_run [OF assms(1-5) s _ _ b refl]) simp_all
  then have "months_loop self now ?s 1 [] = Inr (all_months self ?s now)"
    by (simp add: all_months_def)
  then show ?thesis
    by (simp add: generate_urls_by_pattern_def default_start_year_def)
qed

lemma months_loop_overflow:
  assumes "year now = 9999" and "month now = 12" and "1 \<le> day now"
  shows "1 \<le> y \<Longrightarrow> 1 \<le> m \<Longrightarrow> m \<le> 12 \<Longrightarrow> 12 * y + m \<le> 120000 \<Longrightarrow>
     n = 120000 - (12 * y + m) \<Longrightarrow> months_loop self now y m acc = Inl ValueError"
proof (induction n arbitrary: y m acc)
  case 0
  then have "12 * y + m = 120000" by simp
  with "0.prems"(2,3) have y: "y = 9999" "m = 12" by presburger+
  have f: "first_of_month 9999 12 = Inr \<lparr>year = 9999, month = 12, day = 1, hour = 0, minute = 0,
      second = 0, microsecond = 0\<rparr>"
    by (simp add: first_of_month_def)
  have d: "dt_le \<lparr>year = 9999, month = 12, day = 1, hour = 0, minute = 0,
      second = 0, microsecond = 0\<rparr> now"
    using dt_le_first [OF assms(3), of 9999 12] assms(1,2) by simp
  have o: "first_of_month 10000 1 = Inl ValueError"
    by (simp add: first_of_month_def)
  have "months_loop self now (9999 + 1) 1 (acc @ [month_url self 9999 12]) = Inl ValueError"
    by (subst months_loop.simps) (simp add: first_of_month_def)
  with f d show ?case
    unfolding y by (subst months_loop.simps) simp
next
  case (Suc n)
  let ?cur = "\<lparr>year = y, month = m, day = 1, hour = 0, minute = 0, second = 0, microsecond = 0\<rparr>"
  from Suc.prems have l: "12 * y + m < 120000" by simp
  with Suc.prems(2) have "y \<le> 9999" by linarith
  with Suc.prems have f: "first_of_month y m = Inr ?cur"
    by (simp add: first_of_month_def)
  from l have "12 * y + m \<le> 12 * year now + month now"
    using assms(1,2) by simp
  then have "y < year now \<or> (y = year now \<and> m \<le> month now)"
    using month_order [OF Suc.prems(2,3), of "month now" y "year now"] assms(2) by simp
  then have d: "dt_le ?cur now"
    using dt_le_first [OF assms(3), of y m] by blast
  show ?case
  proof (cases "m = 12")
    case True
    have "months_loop self now (y + 1) 1 (acc @ [month_url self y m]) = Inl ValueError"
      by (rule Suc.IH) (use Suc.prems True l in simp_all)
    with f d True show ?thesis
      by (subst months_loop.simps) simp
  next
    case False
    have "months_loop self now y (m + 1) (acc @ [month_url self y m]) = Inl ValueError"
      by (rule Suc.IH) (use Suc.prems False l in simp_all)
    with f d False show ?thesis
      by (subst months_loop.simps) simp
  qed
qed

lemma december_9999_raises:
  assumes "year now = 9999" and "month now = 12" and "1 \<le> day now"
  shows "generate_urls_by_pattern self now = Inl ValueError"
proof -
  have "months_loop self now (default_start_year self) 1 [] = Inl ValueError"
    by (rule months_loop_overflow [OF assms _ _ _ _ refl])
       (simp_all add: default_start_year_def)
  then show ?thesis
    by (simp add: generate_urls_by_pattern_def default_start_year_def)
qed

lemma btc_simps: "symbol btc = ''BTCUSDT''" "interval btc = ''4h''" "temp_dir btc = ''temp_BTCUSDT''"
  "s3_base btc = ''https://s3-ap-northeast-1.amazonaws.com/data.binance.vision''"
  by (simp_all add: btc_def init_def)

lemma eth_simps: "symbol eth = ''ETHUSDT''" "interval eth = ''4h''" "temp_dir eth = ''temp_ETHUSDT''"
  "s3_base eth = ''https://s3-ap-northeast-1.amazonaws.com/data.binance.vision''"
  by (simp_all add: eth_def init_def)

lemma upt_3: "[n..<n + 3] = [n, n + 1, n + 2]"
  by (simp add: upt_conv_Cons numeral_eq_Suc)

text \<open>
  C7, as stated, fails: with a clock that reads a date before the default start year the
  loop of the fallback generator is not entered, and the sequence is empty.
\<close>

theorem fallback_before_start_year_counterexample:
  "get_zip_links ListingFailed (date 2016 12 31) btc = Inr []"
proof -
  have "first_of_month 2017 1 = Inr \<lparr>year = 2017, month = 1, day = 1, hour = 0, minute = 0,
      second = 0, microsecond = 0\<rparr>"
    by (simp add: first_of_month_def)
  then have "months_loop btc (date 2016 12 31) 2017 1 [] = Inr []"
    by (subst months_loop.simps) (simp add: dt_le_def dt_fields_def date_def)
  then show ?thesis
    by (simp add: get_zip_links_def generate_urls_by_pattern_def btc_def init_def)
qed

text \<open>
  C7, amended. When the listing query fails and the current date is not before January
  of the symbol's default start year (and not in December 9999, where the next month
  cannot be constructed and the generator raises, \<open>december_9999_raises\<close>), the
  locator returns the generated sequence: it is not empty and holds exactly one
  identifier for every month from January of the start year through the current month,
  in chronological order.
\<close>

theorem fallback_covers_all_months:
  assumes "1 \<le> month now" and "month now \<le> 12" and "1 \<le> day now" and "year now \<le> 9999"
    and "\<not> (year now = 9999 \<and> month now = 12)"
    and "default_start_year self \<le> year now"
  shows "get_zip_links ListingFailed now self
           = Inr (all_months self (default_start_year self) now)
         \<and> all_months self (default_start_year self) now \<noteq> []
         \<and> length (all_months self (default_start_year self) now)
             = 12 * (year now - default_start_year self) + month now
         \<and> (\<forall>i < length (all_months self (default_start_year self) now).
               all_months self (default_start_year self) now ! i
                 = month_url self (default_start_year self + i div 12) (i mod 12 + 1))"
proof -
  let ?s = "default_start_year self"
  have g: "get_zip_links ListingFailed now self = Inr (all_months self ?s now)"
    using valid_from_start [OF assms] by (simp add: get_zip_links_def)
  from assms(6) have l: "length (all_months self ?s now) = 12 * (year now - ?s) + month now"
    by (simp add: all_months_def algebra_simps)
  with assms(1) have n: "all_months self ?s now \<noteq> []" by auto
  have i: "all_months self ?s now ! i = month_url self (?s + i div 12) (i mod 12 + 1)"
    if "i < length (all_months self ?s now)" for i
  proof -
    from that have "i < 12 * year now + month now - 12 * ?s"
      by (simp add: all_months_def)
    then have "all_months self ?s now ! i
                 = month_url self ((12 * ?s + i) div 12) ((12 * ?s + i) mod 12 + 1)"
      by (simp add: all_months_def)
    then show ?thesis by simp
  qed
  from g n l i show ?thesis by blast
qed

theorem fallback_covers_all_months_witness:
  "1 \<le> month (date 2017 3 1) \<and> month (date 2017 3 1) \<le> 12 \<and> 1 \<le> day (date 2017 3 1)
   \<and> year (date 2017 3 1) \<le> 9999 \<and> month (date 2017 3 1) \<noteq> 12
   \<and> default_start_year btc \<le> year (date 2017 3 1)
   \<and> get_zip_links ListingFailed (date 2017 3 1) btc
       = Inr [month_url btc 2017 1, month_url btc 2017 2, month_url btc 2017 3]
   \<and> month_url btc 2017 3 = ''https://s3-ap-northeast-1.amazonaws.com/data.binance.vision/data/spot/monthly/klines/BTCUSDT/4h/BTCUSDT-4h-2017-03.zip''"
proof -
  have h: "1 \<le> month (date 2017 3 1)" "month (date 2017 3 1) \<le> 12" "1 \<le> day (date 2017 3 1)"
      "year (date 2017 3 1) \<le> 9999" "\<not> (year (date 2017 3 1) = 9999 \<and> month (date 2017 3 1) = 12)"
      "default_start_year btc \<le> year (date 2017 3 1)"
    by (simp_all add: date_def default_start_year_def btc_simps)
  have s: "default_start_year btc = 2017"
    by (simp add: default_start_year_def btc_simps)
  have "[12 * 2017 ..< 12 * year (date 2017 3 1) + month (date 2017 3 1)] = [24204, 24205, 24206]"
    using upt_3 [of 24204] by (simp add: date_def)
  then have a: "all_months btc 2017 (date 2017 3 1)
          = [month_url btc 2017 1, month_url btc 2017 2, month_url btc 2017 3]"
    by (simp add: all_months_def) (simp add: numeral_2_eq_2)
  have u: "month_url btc 2017 3 = ''https://s3-ap-northeast-1.amazonaws.com/data.binance.vision/data/spot/monthly/klines/BTCUSDT/4h/BTCUSDT-4h-2017-03.zip''"
    by code_simp
  from fallback_covers_all_months [OF h] have "get_zip_links ListingFailed (date 2017 3 1) btc
       = Inr [month_url btc 2017 1, month_url btc 2017 2, month_url btc 2017 3]"
    by (simp only: s a)
  with h u show ?thesis by (simp add: date_def)
qed

section \<open>Properties of the orchestrator\<close>

text \<open>Where \<^verbatim>\<open>collect\<close> reaches the merge, the scratch directory is gone afterwards.\<close>

lemma cleanup_removes: "dirs (cleanup self w) (temp_dir self) = None"
  by (simp add: cleanup_def)

lemma collect_after_merge_removes:
  assumes "get_zip_links (env_listing E) (env_now E) self = Inr zip_links"
    and "zip_links \<noteq> []"
    and "download_all E self zip_links [] [] w = (csv_files, failed_urls, w1)"
    and "csv_files \<noteq> []"
  shows "dirs (snd (collect E self output_filename w)) (temp_dir self) = None"
  using assms by (simp add: collect_def cleanup_removes split: prod.splits)

text \<open>
  C2 does not hold of the program. The two early returns of \<^verbatim>\<open>collect\<close> (lines 237-239
  when the locator yields nothing, lines 266-268 when no archive was fetched) leave
  without calling \<^verbatim>\<open>cleanup\<close>: the scratch directory made by \<^verbatim>\<open>__init__\<close> is still there
  when \<^verbatim>\<open>collect\<close> has returned.
\<close>

theorem collect_early_return_keeps_scratch_dir:
  "dirs eth_world (temp_dir eth) \<noteq> None
   \<and> fst (collect env_no_archives eth ''ETHUSDT_4h_full.csv'' eth_world) = Inr None
   \<and> dirs (snd (collect env_no_archives eth ''ETHUSDT_4h_full.csv'' eth_world)) (temp_dir eth)
       \<noteq> None
   \<and> fst (collect env_offline eth ''ETHUSDT_4h_full.csv'' eth_world) = Inr None
   \<and> dirs (snd (collect env_offline eth ''ETHUSDT_4h_full.csv'' eth_world)) (temp_dir eth)
       \<noteq> None"
proof -
  have w: "dirs eth_world (temp_dir eth) \<noteq> None"
    by (simp add: eth_world_def init_def mkdir_exist_ok_def eth_simps)
  have a: "collect env_no_archives eth ''ETHUSDT_4h_full.csv'' eth_world = (Inr None, eth_world)"
    by (simp add: collect_def env_no_archives_def get_zip_links_def)
  let ?now = "env_now env_offline"
  define u where "u = month_url eth 2018 1"
  have h: "1 \<le> month ?now" "month ?now \<le> 12" "1 \<le> day ?now" "year ?now \<le> 9999"
      "\<not> (year ?now = 9999 \<and> month ?now = 12)" "default_start_year eth \<le> year ?now"
    by (simp_all add: env_offline_def env_no_archives_def default_start_year_def eth_simps)
  have "[12 * 2018 ..< 12 * year ?now + month ?now] = [24216]"
    by (simp add: env_offline_def env_no_archives_def upt_conv_Cons)
  then have "all_months eth (default_start_year eth) ?now = [u]"
    by (simp add: all_months_def default_start_year_def eth_simps u_def)
  with valid_from_start [OF h] have g: "generate_urls_by_pattern eth ?now = Inr [u]"
    by simp
  have "\<forall>i<3. transient (env_fetch env_offline u i)"
    by (simp add: env_offline_def env_no_archives_def transient_def)
  then have de: "download_and_extract (env_fetch env_offline) eth u 3 eth_world =
           (None, eth_world\<lparr>trace := trace eth_world @
              [Get u, Sleep 2000, Get u, Sleep 2000, Get u]\<rparr>)"
    by (rule download_three_failures)
  have l: "env_listing env_offline = ListingFailed"
    by (simp add: env_offline_def)
  have b: "collect env_offline eth ''ETHUSDT_4h_full.csv'' eth_world =
           (Inr None, log_event (Sleep 100) (eth_world\<lparr>trace := trace eth_world @
              [Get u, Sleep 2000, Get u, Sleep 2000, Get u]\<rparr>))"
    by (simp add: collect_def l get_zip_links_def g de)
  from w a b show ?thesis
    by (simp add: log_event_def)
qed

end
